theory Spec2Isabelle
  imports Main "HOL-Library.Word" "HOL-Library.Sublist"
begin

section \<open>Python values used by \<open>sweepai/app/ui.py\<close>\<close>

text \<open>
  A Python string is the list of its code points. \<open>str\<close> gives the literals of the source,
  which are ASCII but for three pictographs written by their code points.
\<close>

type_synonym ustr = "nat list"

definition str :: "string \<Rightarrow> ustr" where
  "str s = map of_char s"

datatype error =
    IndexError
  | AttributeError
  | TypeError
  | KeyError ustr
  | AssertionError
  | NotImplementedError
  | JSONDecodeError
  | Exception ustr

text \<open>What \<open>json.loads\<close> can return. A float is kept as its IEEE-754 bit pattern.\<close>

datatype json =
    JNull
  | JBool bool
  | JInt int
  | JFloat "64 word"
  | JStr ustr
  | JArr "json list"
  | JObj "(ustr \<times> json) list"

definition newline :: nat where
  "newline = 0x0A"

text \<open>\<open>str.isspace\<close> of a code point; \<open>str.strip()\<close> removes these at both ends.\<close>

definition py_isspace :: "nat \<Rightarrow> bool" where
  "py_isspace c =
     (c \<in> set [0x09, 0x0A, 0x0B, 0x0C, 0x0D, 0x1C, 0x1D, 0x1E, 0x1F, 0x20, 0x85, 0xA0, 0x1680,
                0x2000, 0x2001, 0x2002, 0x2003, 0x2004, 0x2005, 0x2006, 0x2007, 0x2008, 0x2009,
                0x200A, 0x2028, 0x2029, 0x202F, 0x205F, 0x3000])"

definition py_strip :: "ustr \<Rightarrow> ustr" where
  "py_strip s = rev (dropWhile py_isspace (rev (dropWhile py_isspace s)))"

text \<open>\<open>s.replace(old, new)\<close> for a one-character \<open>old\<close>.\<close>

definition py_replace :: "nat \<Rightarrow> ustr \<Rightarrow> ustr \<Rightarrow> ustr" where
  "py_replace old new s = concat (map (\<lambda>c. if c = old then new else [c]) s)"

fun py_join :: "ustr \<Rightarrow> ustr list \<Rightarrow> ustr" where
  "py_join sep [] = []"
| "py_join sep [x] = x"
| "py_join sep (x # y # ys) = x @ sep @ py_join sep (y # ys)"

text \<open>Truthiness, as \<open>if x:\<close> and \<open>x and y\<close> test it.\<close>

fun truthy :: "json \<Rightarrow> bool" where
  "truthy JNull = False"
| "truthy (JBool b) = b"
| "truthy (JInt i) = (i \<noteq> 0)"
| "truthy (JFloat w) = (take_bit 63 w \<noteq> 0)"
| "truthy (JStr s) = (s \<noteq> [])"
| "truthy (JArr xs) = (xs \<noteq> [])"
| "truthy (JObj kvs) = (kvs \<noteq> [])"

text \<open>\<open>k in x\<close> for a ustr \<open>k\<close>.\<close>

fun py_contains :: "ustr \<Rightarrow> json \<Rightarrow> error + bool" where
  "py_contains k (JObj kvs) = Inr (k \<in> fst ` set kvs)"
| "py_contains k (JArr xs) = Inr (JStr k \<in> set xs)"
| "py_contains k (JStr s) = Inr (sublist k s)"
| "py_contains k _ = Inl TypeError"

text \<open>\<open>x[k]\<close> for a ustr \<open>k\<close>.\<close>

fun py_getitem :: "json \<Rightarrow> ustr \<Rightarrow> error + json" where
  "py_getitem (JObj kvs) k = (case map_of kvs k of None \<Rightarrow> Inl (KeyError k) | Some v \<Rightarrow> Inr v)"
| "py_getitem _ k = Inl TypeError"

text \<open>\<open>x[k] = v\<close> for a ustr \<open>k\<close>: a present key keeps its place, a new one goes last.\<close>

fun dict_set :: "('k \<times> 'v) list \<Rightarrow> 'k \<Rightarrow> 'v \<Rightarrow> ('k \<times> 'v) list" where
  "dict_set [] k v = [(k, v)]"
| "dict_set (p # ps) k v = (if fst p = k then (k, v) # ps else p # dict_set ps k v)"

fun py_setitem :: "json \<Rightarrow> ustr \<Rightarrow> json \<Rightarrow> error + json" where
  "py_setitem (JObj kvs) k v = Inr (JObj (dict_set kvs k v))"
| "py_setitem _ k v = Inl TypeError"

text \<open>The items \<open>for item in x\<close> runs through.\<close>

fun py_iter :: "json \<Rightarrow> error + json list" where
  "py_iter (JArr xs) = Inr xs"
| "py_iter (JObj kvs) = Inr (map (\<lambda>kv. JStr (fst kv)) kvs)"
| "py_iter (JStr s) = Inr (map (\<lambda>c. JStr [c]) s)"
| "py_iter _ = Inl TypeError"

definition ebind :: "error + 'a \<Rightarrow> ('a \<Rightarrow> error + 'b) \<Rightarrow> error + 'b" where
  "ebind m f = (case m of Inl e \<Rightarrow> Inl e | Inr x \<Rightarrow> f x)"

fun emap :: "('a \<Rightarrow> error + 'b) \<Rightarrow> 'a list \<Rightarrow> error + 'b list" where
  "emap f [] = Inr []"
| "emap f (x # xs) = ebind (f x) (\<lambda>y. ebind (emap f xs) (\<lambda>ys. Inr (y # ys)))"

section \<open>Data model\<close>

record snippet =
  denotation :: ustr
  content :: ustr

type_synonym turn = "ustr option \<times> ustr option"
type_synonym history = "turn list"

text \<open>
  A fragment of the chat stream. Its function call is a dict from keys to strings or \<open>None\<close>:
  \<open>.get\<close> gives \<open>None\<close> for an absent key as for a \<open>None\<close> value, and the dict is true
  when it has a key at all. The fragment itself is only read with \<open>.get\<close>, so an absent
  key and a \<open>None\<close> value are one.
\<close>

type_synonym function_call = "(ustr \<times> ustr option) list"

definition fc_get :: "function_call \<Rightarrow> ustr \<Rightarrow> ustr option" where
  "fc_get fc k = (case map_of fc k of None \<Rightarrow> None | Some v \<Rightarrow> v)"

record chunk =
  chunk_content :: "ustr option"
  chunk_function_call :: "function_call option"

text \<open>What a turn does that its caller can see, in order.\<close>

datatype event =
    Yield history ustr
  | Search "ustr option" nat
  | CreatePR "(json \<times> json) list" "json \<times> json \<times> json" history
  | StreamChat history "snippet list"

text \<open>
  The collaborators of the module that are not in the file: the remote client, the
  \<open>Snippet\<close> class, \<open>json.loads\<close> and \<open>str()\<close> of a value that is not a string,
  and \<open>str.lower\<close>, whose table of case pairs is not in the file.
  A stream is its fragments and the exception that ends it, if one does.
\<close>

record env =
  search :: "ustr option \<Rightarrow> nat \<Rightarrow> error + snippet list"
  create_pr :: "(json \<times> json) list \<Rightarrow> json \<times> json \<times> json \<Rightarrow> history \<Rightarrow> error + ustr"
  stream_chat :: "history \<Rightarrow> snippet list \<Rightarrow> chunk list \<times> error option"
  get_preview :: "snippet \<Rightarrow> nat \<Rightarrow> ustr"
  json_loads :: "ustr \<Rightarrow> error + json"
  py_repr :: "json \<Rightarrow> ustr"
  lower :: "ustr \<Rightarrow> ustr"

datatype status = Running | Returned | Raised error

text \<open>The arguments, locals and the global \<open>proposed_pr\<close> of \<open>handle_message_stream\<close>.\<close>

record frame =
  chat_history :: history
  snippets_text :: ustr
  snippets :: "snippet list"
  pull_request :: ustr
  function_name :: "ustr option"
  raw_arguments :: ustr
  arguments :: json
  proposed_pr :: "json option"
  trace :: "event list"
  status :: status

section \<open>Statements\<close>

definition exec :: "(frame \<Rightarrow> frame) \<Rightarrow> frame \<Rightarrow> frame" where
  "exec s g = (if status g = Running then s g else g)"

fun block :: "(frame \<Rightarrow> frame) list \<Rightarrow> frame \<Rightarrow> frame" where
  "block [] g = g"
| "block (s # ss) g = block ss (exec s g)"

definition raise :: "error \<Rightarrow> frame \<Rightarrow> frame" where
  "raise e g = g\<lparr>status := Raised e\<rparr>"

definition emit :: "event \<Rightarrow> frame \<Rightarrow> frame" where
  "emit ev g = g\<lparr>trace := trace g @ [ev]\<rparr>"

text \<open>\<open>yield chat_history, snippets_text\<close>\<close>

definition yield :: "frame \<Rightarrow> frame" where
  "yield g = emit (Yield (chat_history g) (snippets_text g)) g"

text \<open>\<open>chat_history[-1][1] = v\<close>\<close>

definition set_reply :: "ustr \<Rightarrow> frame \<Rightarrow> frame" where
  "set_reply v g =
     (case chat_history g of
        [] \<Rightarrow> raise IndexError g
      | _ # _ \<Rightarrow> g\<lparr>chat_history :=
                   butlast (chat_history g) @ [(fst (last (chat_history g)), Some v)]\<rparr>)"

text \<open>\<open>chat_history[-1][1] += token\<close>\<close>

definition add_reply :: "ustr \<Rightarrow> frame \<Rightarrow> frame" where
  "add_reply token g =
     (case chat_history g of
        [] \<Rightarrow> raise IndexError g
      | _ # _ \<Rightarrow>
          (case snd (last (chat_history g)) of
             None \<Rightarrow> raise TypeError g
           | Some r \<Rightarrow> set_reply (r @ token) g))"

text \<open>\<open>if c: body\<close>, where evaluating \<open>c\<close> may raise.\<close>

definition if_stmt :: "(frame \<Rightarrow> error + bool) \<Rightarrow> (frame \<Rightarrow> frame) \<Rightarrow> frame \<Rightarrow> frame" where
  "if_stmt c body g =
     (case c g of Inl e \<Rightarrow> raise e g | Inr b \<Rightarrow> if b then body g else g)"

section \<open>The turn generator \<open>handle_message_stream\<close>\<close>

definition backtick :: nat where
  "backtick = 0x60"

definition escaped_backtick :: ustr where
  "escaped_backtick = [0x5C, 0x60]"

definition fence :: ustr where
  "fence = [backtick, backtick, backtick]"

text \<open>Line 107: \<open>snippets_text and snippets_text.strip().count("\n") == 0\<close>\<close>

definition needs_search :: "ustr \<Rightarrow> bool" where
  "needs_search txt = (txt \<noteq> [] \<and> count_list (py_strip txt) newline = 0)"

text \<open>Line 112: \<open>snippets = api_client.search(chat_history[-1][0], 3)\<close>\<close>

definition call_search :: "env \<Rightarrow> frame \<Rightarrow> frame" where
  "call_search en g =
     (case chat_history g of
        [] \<Rightarrow> raise IndexError g
      | _ # _ \<Rightarrow>
          (let q = fst (last (chat_history g)); g' = emit (Search q 3) g
           in case search en q 3 of
                Inl e \<Rightarrow> raise e g'
              | Inr ss \<Rightarrow> g'\<lparr>snippets := ss\<rparr>))"

text \<open>Lines 119-120: the rendering of the snippets found.\<close>

definition render_snippet :: "env \<Rightarrow> snippet \<Rightarrow> ustr" where
  "render_snippet en sn =
     denotation sn @ [newline] @ fence @ (str ''python'') @ [newline]
       @ py_replace backtick escaped_backtick (get_preview en sn 5) @ [newline] @ fence"

definition render_snippets :: "env \<Rightarrow> snippet list \<Rightarrow> ustr" where
  "render_snippets en sns =
     (str ''### Relevant snippets:'') @ [newline] @ py_join [newline] (map (render_snippet en) sns @ [])"

definition search_block :: "env \<Rightarrow> frame \<Rightarrow> frame" where
  "search_block en =
     block [
       set_reply (str ''Searching for relevant snippets...''),
       yield,
       call_search en,
       set_reply (str ''Found relevant snippets.''),
       (\<lambda>g. g\<lparr>snippets_text := render_snippets en (snippets g)\<rparr>),
       yield]"

text \<open>Line 124: \<open>proposed_pr and chat_history[-1][0].strip().lower() in ("okay", "ok")\<close>\<close>

definition is_ok :: "env \<Rightarrow> ustr \<Rightarrow> bool" where
  "is_ok en m = (lower en (py_strip m) \<in> set [(str ''okay''), (str ''ok'')])"

definition confirmed :: "env \<Rightarrow> frame \<Rightarrow> error + bool" where
  "confirmed en g =
     (case proposed_pr g of
        None \<Rightarrow> Inr False
      | Some p \<Rightarrow>
          if \<not> truthy p then Inr False
          else (case chat_history g of
                  [] \<Rightarrow> Inl IndexError
                | _ # _ \<Rightarrow>
                    (case fst (last (chat_history g)) of
                       None \<Rightarrow> Inl AttributeError
                     | Some m \<Rightarrow> Inr (is_ok en m))))"

text \<open>Line 128: \<open>[(item["file_path"], item["instructions"]) for item in proposed_pr["plan"]]\<close>\<close>

definition reshape_item :: "json \<Rightarrow> error + json \<times> json" where
  "reshape_item item =
     ebind (py_getitem item (str ''file_path'')) (\<lambda>p.
     ebind (py_getitem item (str ''instructions'')) (\<lambda>i. Inr (p, i)))"

definition file_change_requests :: "json \<Rightarrow> error + (json \<times> json) list" where
  "file_change_requests p =
     ebind (py_getitem p (str ''plan'')) (\<lambda>plan.
     ebind (py_iter plan) (\<lambda>items. emap reshape_item items))"

text \<open>Lines 129-133: the \<open>pull_request\<close> dict, as (title, content, branch_name).\<close>

definition pull_request_meta :: "json \<Rightarrow> error + json \<times> json \<times> json" where
  "pull_request_meta p =
     ebind (py_getitem p (str ''title'')) (\<lambda>t.
     ebind (py_getitem p (str ''summary'')) (\<lambda>s.
     ebind (py_getitem p (str ''branch'')) (\<lambda>b. Inr (t, s, b))))"

text \<open>Lines 127-135: the arguments are evaluated in order, then the call is made.\<close>

definition call_create_pr :: "env \<Rightarrow> frame \<Rightarrow> frame" where
  "call_create_pr en g =
     (case proposed_pr g of
        None \<Rightarrow> raise TypeError g
      | Some p \<Rightarrow>
          (case file_change_requests p of
             Inl e \<Rightarrow> raise e g
           | Inr fcrs \<Rightarrow>
               (case pull_request_meta p of
                  Inl e \<Rightarrow> raise e g
                | Inr meta \<Rightarrow>
                    (let g' = emit (CreatePR fcrs meta (chat_history g)) g
                     in case create_pr en fcrs meta (chat_history g) of
                          Inl e \<Rightarrow> raise e g'
                        | Inr url \<Rightarrow> g'\<lparr>pull_request := url\<rparr>))))"

definition creating_pr :: ustr where
  "creating_pr = [0x23F3] @ (str '' Creating PR...'')"

definition pr_created_at :: ustr where
  "pr_created_at = [0x2705] @ (str '' PR created at '')"

definition confirm_block :: "env \<Rightarrow> frame \<Rightarrow> frame" where
  "confirm_block en =
     block [
       set_reply creating_pr,
       yield,
       call_create_pr en,
       (\<lambda>g. set_reply (pr_created_at @ pull_request g) g),
       yield,
       (\<lambda>g. g\<lparr>status := Returned\<rparr>)]"

text \<open>Lines 149-159: one round of \<open>for chunk in stream\<close>.\<close>

fun for_each :: "('a \<Rightarrow> frame \<Rightarrow> frame) \<Rightarrow> 'a list \<Rightarrow> frame \<Rightarrow> frame" where
  "for_each body [] g = g"
| "for_each body (c # cs) g = for_each body cs (exec (body c) g)"

definition name_truthy :: "ustr option \<Rightarrow> bool" where
  "name_truthy n = (case n of None \<Rightarrow> False | Some s \<Rightarrow> s \<noteq> [])"

definition name_str :: "ustr option \<Rightarrow> ustr" where
  "name_str n = (case n of None \<Rightarrow> (str ''None'') | Some s \<Rightarrow> s)"

definition content_stmt :: "chunk \<Rightarrow> frame \<Rightarrow> frame" where
  "content_stmt c =
     (case chunk_content c of
        None \<Rightarrow> id
      | Some token \<Rightarrow> if token = [] then id else block [add_reply token, yield])"

text \<open>Line 156: \<open>function_name = function_name or function_call.get("name")\<close>\<close>

definition update_name :: "function_call \<Rightarrow> frame \<Rightarrow> frame" where
  "update_name fc g =
     g\<lparr>function_name := (if name_truthy (function_name g) then function_name g
                            else fc_get fc (str ''name''))\<rparr>"

text \<open>Line 157: \<open>raw_arguments += function_call.get("arguments")\<close>\<close>

definition append_arguments :: "function_call \<Rightarrow> frame \<Rightarrow> frame" where
  "append_arguments fc g =
     (case fc_get fc (str ''arguments'') of
        None \<Rightarrow> raise TypeError g
      | Some a \<Rightarrow> g\<lparr>raw_arguments := raw_arguments g @ a\<rparr>)"

definition render_call :: "ustr option \<Rightarrow> ustr \<Rightarrow> ustr" where
  "render_call n raw =
     (str ''Calling function: `'') @ name_str n @ (str ''`'') @ [newline] @ fence @ (str ''json'') @ [newline]
       @ raw @ [newline] @ fence"

text \<open>Lines 154-159: \<open>if chunk.get("function_call")\<close> tests that the dict is not empty.\<close>

definition call_stmt :: "chunk \<Rightarrow> frame \<Rightarrow> frame" where
  "call_stmt c =
     (case chunk_function_call c of
        None \<Rightarrow> id
      | Some fc \<Rightarrow>
          if fc = [] then id
          else block [
            update_name fc,
            append_arguments fc,
            (\<lambda>g. set_reply (render_call (function_name g) (raw_arguments g)) g),
            yield])"

definition loop_body :: "chunk \<Rightarrow> frame \<Rightarrow> frame" where
  "loop_body c = block [content_stmt c, call_stmt c]"

text \<open>Lines 146-159: the stream is opened, read to its end, and its own failure raised.\<close>

definition consume_stream :: "env \<Rightarrow> frame \<Rightarrow> frame" where
  "consume_stream en g =
     (let st = stream_chat en (chat_history g) (snippets g)
      in block [
           emit (StreamChat (chat_history g) (snippets g)),
           (\<lambda>g. g\<lparr>function_name := Some [], raw_arguments := []\<rparr>),
           for_each loop_body (fst st),
           (\<lambda>g. case snd st of None \<Rightarrow> g | Some e \<Rightarrow> raise e g)] g)"

text \<open>Lines 160-176: the function call the stream ended with.\<close>

definition load_arguments :: "env \<Rightarrow> frame \<Rightarrow> frame" where
  "load_arguments en g =
     (case json_loads en (raw_arguments g) of
        Inl e \<Rightarrow> raise e g
      | Inr a \<Rightarrow> g\<lparr>arguments := a\<rparr>)"

definition assert_key :: "ustr \<Rightarrow> frame \<Rightarrow> frame" where
  "assert_key k g =
     (case py_contains k (arguments g) of
        Inl e \<Rightarrow> raise e g
      | Inr b \<Rightarrow> if b then g else raise AssertionError g)"

text \<open>Line 167: \<open>arguments["title"].lower().replace(" ", "_").replace("-", "_")[:50]\<close>\<close>

definition branch_of_title :: "env \<Rightarrow> ustr \<Rightarrow> ustr" where
  "branch_of_title en t =
     take 50 (py_replace 0x2D (str ''_'') (py_replace 0x20 (str ''_'') (lower en t)))"

definition derive_branch :: "env \<Rightarrow> frame \<Rightarrow> frame" where
  "derive_branch en g =
     (case py_getitem (arguments g) (str ''title'') of
        Inl e \<Rightarrow> raise e g
      | Inr (JStr t) \<Rightarrow>
          (case py_setitem (arguments g) (str ''branch'') (JStr (branch_of_title en t)) of
             Inl e \<Rightarrow> raise e g
           | Inr a \<Rightarrow> g\<lparr>arguments := a\<rparr>)
      | Inr _ \<Rightarrow> raise AttributeError g)"

definition to_str :: "env \<Rightarrow> json \<Rightarrow> ustr" where
  "to_str en v = (case v of JStr s \<Rightarrow> s | _ \<Rightarrow> py_repr en v)"

text \<open>Line 171: \<open>f"* `{item['file_path']}`: {item['instructions']}"\<close>\<close>

definition plan_line :: "env \<Rightarrow> json \<Rightarrow> error + ustr" where
  "plan_line en item =
     ebind (py_getitem item (str ''file_path'')) (\<lambda>p.
     ebind (py_getitem item (str ''instructions'')) (\<lambda>i.
       Inr ((str ''* `'') @ to_str en p @ (str ''`: '') @ to_str en i)))"

definition pr_summary_template :: "ustr \<Rightarrow> ustr \<Rightarrow> ustr \<Rightarrow> ustr" where
  "pr_summary_template title summary plan =
     [0x1F4A1] @ (str '' I'') @ [0x27] @ (str ''ll create the following PR:'')
       @ [newline, newline] @ (str ''**'') @ title @ (str ''**'') @ [newline] @ summary @ [newline, newline]
       @ (str ''Here is my plan:'') @ [newline] @ plan @ [newline, newline]
       @ (str ''Reply with '') @ [0x22] @ (str ''ok'') @ [0x22]
       @ (str '' to create the PR or anything else to propose changes.'')"

definition render_proposal :: "env \<Rightarrow> json \<Rightarrow> error + ustr" where
  "render_proposal en a =
     ebind (py_getitem a (str ''title'')) (\<lambda>t.
     ebind (py_getitem a (str ''summary'')) (\<lambda>s.
     ebind (py_getitem a (str ''plan'')) (\<lambda>plan.
     ebind (py_iter plan) (\<lambda>items.
     ebind (emap (plan_line en) items) (\<lambda>ls.
       Inr (pr_summary_template (to_str en t) (to_str en s) (py_join [newline] ls)))))))"

definition show_proposal :: "env \<Rightarrow> frame \<Rightarrow> frame" where
  "show_proposal en g =
     (case render_proposal en (arguments g) of
        Inl e \<Rightarrow> raise e g
      | Inr v \<Rightarrow> set_reply v g)"

definition create_pr_block :: "env \<Rightarrow> frame \<Rightarrow> frame" where
  "create_pr_block en =
     block [
       assert_key (str ''title''),
       assert_key (str ''summary''),
       assert_key (str ''plan''),
       if_stmt (\<lambda>g. ebind (py_contains (str ''branch'') (arguments g)) (\<lambda>b. Inr (\<not> b))) (derive_branch en),
       show_proposal en,
       yield,
       (\<lambda>g. g\<lparr>proposed_pr := Some (arguments g)\<rparr>)]"

definition finish_call :: "env \<Rightarrow> frame \<Rightarrow> frame" where
  "finish_call en =
     if_stmt (\<lambda>g. Inr (name_truthy (function_name g)))
       (block [
          load_arguments en,
          (\<lambda>g. if function_name g = Some (str ''create_pr'') then create_pr_block en g
                else raise NotImplementedError g)])"

definition generate_block :: "env \<Rightarrow> frame \<Rightarrow> frame" where
  "generate_block en =
     block [
       (\<lambda>g. g\<lparr>chat_history := chat_history g @ [(None, Some (str ''Fetching endpoint...''))]\<rparr>),
       yield,
       set_reply [],
       consume_stream en,
       finish_call en]"

definition init_frame :: "json option \<Rightarrow> history \<Rightarrow> ustr \<Rightarrow> frame" where
  "init_frame pr h txt =
     \<lparr>chat_history = h, snippets_text = txt, snippets = [], pull_request = [],
      function_name = Some [], raw_arguments = [], arguments = JNull,
      proposed_pr = pr, trace = [], status = Running\<rparr>"

text \<open>
  Lines 103-176. The global \<open>proposed_pr\<close> comes in as \<open>pr\<close>; the frame returned holds what
  was yielded and called (\<open>trace\<close>), how the generator ended (\<open>status\<close>), and the history and
  global as the turn left them.
\<close>

definition handle_message_stream :: "env \<Rightarrow> json option \<Rightarrow> history \<Rightarrow> ustr \<Rightarrow> frame" where
  "handle_message_stream en pr h txt =
     block [
       yield,
       if_stmt (\<lambda>g. Inr (needs_search (snippets_text g))) (search_block en),
       if_stmt (confirmed en) (confirm_block en),
       generate_block en] (init_frame pr h txt)"

text \<open>Lines 98-101. The update of the text box is not modelled.\<close>

definition handle_message_submit :: "ustr \<Rightarrow> ustr \<Rightarrow> history \<Rightarrow> error + history" where
  "handle_message_submit repo_full_name user_message h =
     (if repo_full_name = [] then Inl (Exception (str ''Set the repository name first''))
      else Inr (h @ [(Some user_message, None)]))"

section \<open>Repository and file selection\<close>

text \<open>
  The module's globals \<open>config\<close>, \<open>selected_files\<close>, \<open>file_to_str\<close> and \<open>path_to_contents\<close>,
  with what \<open>config.save()\<close> last wrote and whether the browser tab was opened.
\<close>

record app =
  config_repo_full_name :: "ustr option"
  config_installation_id :: "int option"
  saved_config :: "ustr option \<times> int option"
  opened_tab :: bool
  selected_files :: "ustr list"
  file_to_str :: "(ustr \<times> ustr) list"
  path_to_contents :: "(ustr \<times> ustr) list"

text \<open>Lines 61-67, the \<open>except\<close> branch.\<close>

definition repo_name_failed :: "error \<Rightarrow> app \<Rightarrow> app \<times> (error + ustr)" where
  "repo_name_failed e a =
     (a\<lparr>opened_tab := True, config_repo_full_name := None, config_installation_id := None,
        saved_config := (None, None)\<rparr>, Inl e)"

text \<open>
  Lines 50-67. \<open>api_client.get_installation_id()\<close> is the parameter \<open>get_id\<close>, asked about
  the repository just written into the configuration.
\<close>

definition repo_name_change ::
  "(ustr \<Rightarrow> error + int) \<Rightarrow> ustr \<Rightarrow> app \<Rightarrow> app \<times> (error + ustr)" where
  "repo_name_change get_id repo_full_name a =
     (let a1 = a\<lparr>config_repo_full_name := Some repo_full_name\<rparr>
      in case get_id repo_full_name of
           Inl e \<Rightarrow> repo_name_failed e a1
         | Inr i \<Rightarrow>
             if i = 0 then repo_name_failed AssertionError a1
             else (a1\<lparr>config_installation_id := Some i,
                      saved_config := (Some repo_full_name, Some i)\<rparr>, Inr []))"

fun split_on :: "nat \<Rightarrow> ustr \<Rightarrow> ustr list" where
  "split_on c [] = [[]]"
| "split_on c (x # xs) =
     (if x = c then [] # split_on c xs
      else (case split_on c xs of [] \<Rightarrow> [[x]] | l # ls \<Rightarrow> (x # l) # ls))"

text \<open>Lines 80-88.\<close>

definition add_file_to_dict :: "env \<Rightarrow> ustr \<Rightarrow> app \<Rightarrow> error + app" where
  "add_file_to_dict en file_name a =
     (case map_of (path_to_contents a) file_name of
        None \<Rightarrow> Inl (KeyError file_name)
      | Some file_contents \<Rightarrow>
          (let file_contents_split = split_on newline file_contents;
               preview = py_replace backtick escaped_backtick
                           (py_join [newline] (take 3 file_contents_split))
           in Inr (a\<lparr>file_to_str := dict_set (file_to_str a) file_name
                 (file_name @ (str '':0:'') @ to_str en (JInt (int (length file_contents_split)))
                    @ [newline] @ fence @ (str ''python'') @ [newline] @ preview @ [newline]
                    @ (str ''...'') @ [newline] @ fence)\<rparr>)))"

text \<open>Lines 74-76: the loop stops at the first file that is not in the repository.\<close>

fun fill_cache :: "env \<Rightarrow> ustr list \<Rightarrow> app \<Rightarrow> app \<times> error option" where
  "fill_cache en [] a = (a, None)"
| "fill_cache en (f # fs) a =
     (if f \<in> fst ` set (file_to_str a) then fill_cache en fs a
      else (case add_file_to_dict en f a of
              Inl e \<Rightarrow> (a, Some e)
            | Inr a' \<Rightarrow> fill_cache en fs a'))"

definition cached :: "app \<Rightarrow> ustr \<Rightarrow> error + ustr" where
  "cached a fi = (case map_of (file_to_str a) fi of None \<Rightarrow> Inl (KeyError fi) | Some v \<Rightarrow> Inr v)"

text \<open>Lines 71-78.\<close>

definition build_string :: "env \<Rightarrow> app \<Rightarrow> app \<times> (error + ustr)" where
  "build_string en a =
     (case fill_cache en (selected_files a) a of
        (a', Some e) \<Rightarrow> (a', Inl e)
      | (a', None) \<Rightarrow>
          (a', ebind (emap (cached a') (selected_files a')) (\<lambda>vs.
                 Inr ((str ''### Relevant snippets:'') @ [newline] @ py_join [newline, newline] vs))))"

text \<open>Lines 90-94.\<close>

definition file_names_change ::
  "env \<Rightarrow> ustr list \<Rightarrow> app \<Rightarrow> app \<times> (error + ustr list \<times> ustr)" where
  "file_names_change en file_names a =
     (case build_string en (a\<lparr>selected_files := file_names\<rparr>) of
        (a', r) \<Rightarrow> (a', ebind r (\<lambda>txt. Inr (file_names, txt))))"

section \<open>Points of the turn and what is observed of it\<close>

text \<open>The frame when line 123 is reached: the first yield and the snippet search are done.\<close>

definition at_confirm :: "env \<Rightarrow> json option \<Rightarrow> history \<Rightarrow> ustr \<Rightarrow> frame" where
  "at_confirm en pr h txt =
     block [yield, if_stmt (\<lambda>g. Inr (needs_search (snippets_text g))) (search_block en)]
       (init_frame pr h txt)"

text \<open>The frame when line 146 is reached, just before the stream is opened.\<close>

definition at_stream :: "env \<Rightarrow> json option \<Rightarrow> history \<Rightarrow> ustr \<Rightarrow> frame" where
  "at_stream en pr h txt =
     exec (block [
             (\<lambda>g. g\<lparr>chat_history := chat_history g @ [(None, Some (str ''Fetching endpoint...''))]\<rparr>),
             yield,
             set_reply []])
       (exec (if_stmt (confirmed en) (confirm_block en)) (at_confirm en pr h txt))"

text \<open>The frame when line 160 is reached: the stream has been read to its end.\<close>

definition stream_end :: "env \<Rightarrow> json option \<Rightarrow> history \<Rightarrow> ustr \<Rightarrow> frame" where
  "stream_end en pr h txt = exec (consume_stream en) (at_stream en pr h txt)"

text \<open>The calls of a trace, by collaborator, and the assistant slots it yielded.\<close>

definition search_calls :: "event list \<Rightarrow> (ustr option \<times> nat) list" where
  "search_calls tr = concat (map (\<lambda>ev. case ev of Search q k \<Rightarrow> [(q, k)] | _ \<Rightarrow> []) tr)"

definition create_pr_calls ::
  "event list \<Rightarrow> ((json \<times> json) list \<times> (json \<times> json \<times> json) \<times> history) list" where
  "create_pr_calls tr =
     concat (map (\<lambda>ev. case ev of CreatePR f m hh \<Rightarrow> [(f, m, hh)] | _ \<Rightarrow> []) tr)"

definition stream_chat_calls :: "event list \<Rightarrow> (history \<times> snippet list) list" where
  "stream_chat_calls tr =
     concat (map (\<lambda>ev. case ev of StreamChat hh sns \<Rightarrow> [(hh, sns)] | _ \<Rightarrow> []) tr)"

text \<open>Everything in a trace that is a call to a collaborator.\<close>

definition calls :: "event list \<Rightarrow> event list" where
  "calls tr = filter (\<lambda>ev. case ev of Yield hh txt \<Rightarrow> False | _ \<Rightarrow> True) tr"

definition last_reply :: "history \<Rightarrow> ustr option" where
  "last_reply h = (case h of [] \<Rightarrow> None | _ # _ \<Rightarrow> snd (last h))"

definition yielded_replies :: "event list \<Rightarrow> ustr option list" where
  "yielded_replies tr =
     concat (map (\<lambda>ev. case ev of Yield hh txt \<Rightarrow> [last_reply hh] | _ \<Rightarrow> []) tr)"

text \<open>A proposal is pending when \<open>proposed_pr\<close> is true in the sense of line 124.\<close>

definition pending :: "json option \<Rightarrow> bool" where
  "pending pr = (case pr of None \<Rightarrow> False | Some p \<Rightarrow> truthy p)"

text \<open>A proposal whose plan, title, summary and branch can be read as lines 128-132 read them.\<close>

definition readable :: "json \<Rightarrow> bool" where
  "readable p =
     (case file_change_requests p of
        Inl e \<Rightarrow> False
      | Inr f \<Rightarrow> (case pull_request_meta p of Inl e \<Rightarrow> False | Inr m \<Rightarrow> True))"

text \<open>The create-PR call that confirming \<open>pr\<close> with history \<open>h\<close> issues, if it gets that far.\<close>

definition issued :: "json option \<Rightarrow> history \<Rightarrow>
    ((json \<times> json) list \<times> (json \<times> json \<times> json) \<times> history) list" where
  "issued pr h =
     (case pr of
        None \<Rightarrow> []
      | Some p \<Rightarrow>
          (case file_change_requests p of
             Inl e \<Rightarrow> []
           | Inr f \<Rightarrow>
               (case pull_request_meta p of
                  Inl e \<Rightarrow> []
                | Inr m \<Rightarrow> [(f, m, butlast h @ [(fst (last h), Some creating_pr)])])))"

text \<open>A stream fragment that carries text only.\<close>

definition content_chunk :: "ustr \<Rightarrow> chunk" where
  "content_chunk t = \<lparr>chunk_content = Some t, chunk_function_call = None\<rparr>"

text \<open>The accumulated text after each fragment that is not empty, starting from \<open>acc\<close>.\<close>

fun running_texts :: "ustr \<Rightarrow> ustr list \<Rightarrow> ustr list" where
  "running_texts acc [] = []"
| "running_texts acc (t # ts) =
     (if t = [] then running_texts acc ts else (acc @ t) # running_texts (acc @ t) ts)"

text \<open>A fragment whose function call is true and gives no arguments.\<close>

definition missing_arguments :: "chunk \<Rightarrow> bool" where
  "missing_arguments c =
     (case chunk_function_call c of
        None \<Rightarrow> False
      | Some fc \<Rightarrow> fc \<noteq> [] \<and> fc_get fc (str ''arguments'') = None)"

text \<open>A frame inside the stream loop: running, with an assistant slot to write to.\<close>

definition streaming :: "frame \<Rightarrow> bool" where
  "streaming g =
     (status g = Running \<and> chat_history g \<noteq> [] \<and> snd (last (chat_history g)) \<noteq> None)"

text \<open>A statement keeps an observation when running it never changes what is observed.\<close>

definition keeps :: "(frame \<Rightarrow> 'a) \<Rightarrow> (frame \<Rightarrow> frame) \<Rightarrow> bool" where
  "keeps f s = (\<forall>g. f (s g) = f g)"

section \<open>Example collaborators and states\<close>

text \<open>\<open>str.lower\<close> on ASCII text, which is all that the examples use.\<close>

definition ascii_lower :: "ustr \<Rightarrow> ustr" where
  "ascii_lower s = map (\<lambda>c. if 0x41 \<le> c \<and> c \<le> 0x5A then c + 0x20 else c) s"

definition example_env :: env where
  "example_env =
     \<lparr>search = (\<lambda>q k. Inr []),
      create_pr = (\<lambda>fcrs meta h. Inr (str ''https://github.com/o/r/pull/1'')),
      stream_chat = (\<lambda>h sns. ([], None)),
      get_preview = (\<lambda>sn n. content sn),
      json_loads = (\<lambda>s. Inl JSONDecodeError),
      py_repr = (\<lambda>v. (str ''?'')),
      lower = ascii_lower\<rparr>"

definition example_proposal :: json where
  "example_proposal =
     JObj [((str ''title''), JStr (str ''Add tests'')), ((str ''summary''), JStr (str ''Unit tests for a.py'')),
           ((str ''plan''), JArr [JObj [((str ''file_path''), JStr (str ''a.py'')),
                                  ((str ''instructions''), JStr (str ''cover f''))]]),
           ((str ''branch''), JStr (str ''add_tests''))]"

text \<open>A client whose search times out.\<close>

definition failing_search_env :: env where
  "failing_search_env = example_env\<lparr>search := (\<lambda>q k. Inl (Exception (str ''timeout'')))\<rparr>"

text \<open>A client whose chat stream is the given fragments.\<close>

definition stream_env :: "chunk list \<Rightarrow> env" where
  "stream_env cs = example_env\<lparr>stream_chat := (\<lambda>h sns. (cs, None))\<rparr>"

text \<open>A stream fragment that carries a function call only, with its arguments.\<close>

definition call_chunk :: "ustr option \<Rightarrow> ustr \<Rightarrow> chunk" where
  "call_chunk n a =
     \<lparr>chunk_content = None,
      chunk_function_call =
        Some ((case n of None \<Rightarrow> [] | Some s \<Rightarrow> [((str ''name''), Some s)])
              @ [((str ''arguments''), Some a)])\<rparr>"

text \<open>
  A client whose chat stream is function-call fragments, given as (name, arguments) pairs,
  with a \<open>json.loads\<close> that reads their concatenated arguments as the object \<open>kvs\<close>.
\<close>

definition proposal_env :: "(ustr option \<times> ustr) list \<Rightarrow> (ustr \<times> json) list \<Rightarrow> env" where
  "proposal_env nas kvs =
     (stream_env (map (\<lambda>na. call_chunk (fst na) (snd na)) nas))
       \<lparr>json_loads := (\<lambda>s. if s = concat (map snd nas) then Inr (JObj kvs)
                             else Inl JSONDecodeError)\<rparr>"

text \<open>The two fragments of a \<open>create_pr\<close> call with title X, summary S and an empty plan.\<close>

definition example_call :: "(ustr option \<times> ustr) list" where
  "example_call =
     [(Some (str ''create_pr''), (str ''{'') @ [0x22] @ (str ''ti'')),
      (None, (str ''tle'') @ [0x22] @ (str '':'') @ [0x22] @ (str ''X'') @ [0x22] @ (str '','') @
             [0x22] @ (str ''summary'') @ [0x22] @ (str '':'') @ [0x22] @ (str ''S'') @ [0x22] @
             (str '','') @ [0x22] @ (str ''plan'') @ [0x22] @ (str '':[]}''))]"

text \<open>What \<open>json.loads\<close> reads from these two fragments.\<close>

definition example_arguments :: "(ustr \<times> json) list" where
  "example_arguments =
     [((str ''title''), JStr (str ''X'')), ((str ''summary''), JStr (str ''S'')),
      ((str ''plan''), JArr [])]"

text \<open>
  A \<open>create_pr\<close> call in two fragments whose title has 61 characters, with capitals,
  spaces and hyphens, and whose plan has one entry; and what \<open>json.loads\<close> reads from it.
\<close>

definition long_title :: ustr where
  "long_title = (str ''Fix Log-In: keep the Session Token when the Page is Re-Loaded'')"

definition long_title_call :: "(ustr option \<times> ustr) list" where
  "long_title_call =
     [(Some (str ''create_pr''),
       (str ''{'') @ [0x22] @ (str ''title'') @ [0x22] @ (str '':'') @ [0x22] @ long_title @ [0x22] @
       (str '','') @ [0x22] @ (str ''summary'') @ [0x22] @ (str '':'') @ [0x22] @ (str ''Keep the'')),
      (None,
       (str '' token'') @ [0x22] @ (str '','') @ [0x22] @ (str ''plan'') @ [0x22] @ (str '':[{'') @
       [0x22] @ (str ''file_path'') @ [0x22] @ (str '':'') @ [0x22] @ (str ''auth.py'') @ [0x22] @
       (str '','') @ [0x22] @ (str ''instructions'') @ [0x22] @ (str '':'') @ [0x22] @
       (str ''store the token'') @ [0x22] @ (str ''}]}''))]"

definition long_title_arguments :: "(ustr \<times> json) list" where
  "long_title_arguments =
     [((str ''title''), JStr long_title), ((str ''summary''), JStr (str ''Keep the token'')),
      ((str ''plan''), JArr [JObj [((str ''file_path''), JStr (str ''auth.py'')),
                                  ((str ''instructions''), JStr (str ''store the token''))]])]"

text \<open>A snippet block with a file rendered in it, so that no search is triggered.\<close>

definition example_block :: ustr where
  "example_block = (str ''### Relevant snippets:'') @ [newline] @ (str ''a.py:0:1'')"

text \<open>A fragment whose function call names \<open>create_pr\<close> and has no arguments.\<close>

definition call_without_arguments :: chunk where
  "call_without_arguments =
     \<lparr>chunk_content = None,
      chunk_function_call = Some [((str ''name''), Some (str ''create_pr''))]\<rparr>"

definition example_app :: app where
  "example_app =
     \<lparr>config_repo_full_name = Some (str ''o/old''), config_installation_id = Some 1,
      saved_config = (Some (str ''o/old''), Some 1), opened_tab = False,
      selected_files = [], file_to_str = [],
      path_to_contents = [((str ''a.py''), (str ''x = 1''))]\<rparr>"

section \<open>Literals\<close>

lemma str_eq_iff [simp]: "str a = str b \<longleftrightarrow> a = b"
  by (simp add: str_def inj_map_eq_map inj_def)

lemma str_eq_Nil [simp]: "str a = [] \<longleftrightarrow> a = []"
  by (simp add: str_def)

lemma in_set_str [simp]: "n \<in> set (str s) \<longleftrightarrow> n \<in> of_char ` set s"
  by (simp add: str_def)

lemma str_append: "str a @ str b = str (a @ b)"
  by (simp add: str_def)

section \<open>The statements of a turn\<close>

lemma exec_running: "status g = Running \<Longrightarrow> exec s g = s g"
  by (simp add: exec_def)

lemma exec_stopped: "status g \<noteq> Running \<Longrightarrow> exec s g = g"
  by (simp add: exec_def)

lemma block_stopped: "status g \<noteq> Running \<Longrightarrow> block ss g = g"
  by (induction ss arbitrary: g) (simp_all add: exec_def)

lemma for_each_stopped: "status g \<noteq> Running \<Longrightarrow> for_each body cs g = g"
  by (induction cs arbitrary: g) (simp_all add: exec_def)

lemma block_append: "block (ss @ ts) g = block ts (block ss g)"
  by (induction ss arbitrary: g) simp_all

lemma set_reply_nonempty:
  "chat_history g \<noteq> [] \<Longrightarrow>
   set_reply v g = g\<lparr>chat_history := butlast (chat_history g) @ [(fst (last (chat_history g)), Some v)]\<rparr>"
  by (cases "chat_history g") (simp_all add: set_reply_def)

lemma set_reply_empty: "chat_history g = [] \<Longrightarrow> set_reply v g = raise IndexError g"
  by (simp add: set_reply_def)

lemma at_confirm_no_search:
  "\<not> needs_search txt \<Longrightarrow> at_confirm en pr h txt = (init_frame pr h txt)\<lparr>trace := [Yield h txt]\<rparr>"
  by (simp add: at_confirm_def exec_def if_stmt_def yield_def emit_def init_frame_def)

lemma at_confirm_empty:
  "needs_search txt \<Longrightarrow>
   at_confirm en pr [] txt = (init_frame pr [] txt)\<lparr>trace := [Yield [] txt], status := Raised IndexError\<rparr>"
  by (simp add: at_confirm_def exec_def if_stmt_def yield_def emit_def init_frame_def
      search_block_def set_reply_empty raise_def)


lemma call_search_failed:
  "chat_history g \<noteq> [] \<Longrightarrow> search en (fst (last (chat_history g))) 3 = Inl e \<Longrightarrow>
   call_search en g = raise e (emit (Search (fst (last (chat_history g))) 3) g)"
  by (cases "chat_history g") (simp_all add: call_search_def Let_def)

lemma call_search_ok:
  "chat_history g \<noteq> [] \<Longrightarrow> search en (fst (last (chat_history g))) 3 = Inr ss \<Longrightarrow>
   call_search en g = (emit (Search (fst (last (chat_history g))) 3) g)\<lparr>snippets := ss\<rparr>"
  by (cases "chat_history g") (simp_all add: call_search_def Let_def)

lemma at_confirm_search_failed:
  "needs_search txt \<Longrightarrow> h \<noteq> [] \<Longrightarrow> search en (fst (last h)) 3 = Inl e \<Longrightarrow>
   at_confirm en pr h txt =
     (init_frame pr h txt)\<lparr>
        chat_history := butlast h @ [(fst (last h), Some (str ''Searching for relevant snippets...''))],
        trace := [Yield h txt,
                  Yield (butlast h @ [(fst (last h), Some (str ''Searching for relevant snippets...''))]) txt,
                  Search (fst (last h)) 3],
        status := Raised e\<rparr>"
  by (simp add: at_confirm_def exec_def if_stmt_def yield_def emit_def init_frame_def
      search_block_def set_reply_nonempty call_search_failed raise_def)

lemma at_confirm_search_ok:
  "needs_search txt \<Longrightarrow> h \<noteq> [] \<Longrightarrow> search en (fst (last h)) 3 = Inr ss \<Longrightarrow>
   at_confirm en pr h txt =
     (init_frame pr h txt)\<lparr>
        chat_history := butlast h @ [(fst (last h), Some (str ''Found relevant snippets.''))],
        snippets_text := render_snippets en ss,
        snippets := ss,
        trace := [Yield h txt,
                  Yield (butlast h @ [(fst (last h), Some (str ''Searching for relevant snippets...''))]) txt,
                  Search (fst (last h)) 3,
                  Yield (butlast h @ [(fst (last h), Some (str ''Found relevant snippets.''))])
                        (render_snippets en ss)]\<rparr>"
  by (simp add: at_confirm_def exec_def if_stmt_def yield_def emit_def init_frame_def
      search_block_def set_reply_nonempty call_search_ok raise_def)


lemma turn_split:
  "handle_message_stream en pr h txt = exec (finish_call en) (stream_end en pr h txt)"
  by (simp add: handle_message_stream_def stream_end_def at_stream_def at_confirm_def
      generate_block_def exec_def block_stopped)


lemma keeps_exec: "keeps f s \<Longrightarrow> keeps f (exec s)"
  by (simp add: keeps_def exec_def)

lemma keeps_block: "(\<And>s. s \<in> set ss \<Longrightarrow> keeps f s) \<Longrightarrow> keeps f (block ss)"
proof (induction ss)
  case Nil
  then show ?case by (simp add: keeps_def)
next
  case (Cons s ss)
  have a: "keeps f (exec s)" using Cons.prems by (simp add: keeps_exec)
  have b: "keeps f (block ss)" using Cons by simp
  show ?case using a b by (simp add: keeps_def)
qed

lemma keeps_for_each: "(\<And>c. keeps f (body c)) \<Longrightarrow> keeps f (for_each body cs)"
proof (induction cs)
  case Nil
  then show ?case by (simp add: keeps_def)
next
  case (Cons c cs)
  have a: "keeps f (exec (body c))" using Cons.prems by (simp add: keeps_exec)
  have b: "keeps f (for_each body cs)" using Cons by simp
  show ?case using a b by (simp add: keeps_def)
qed

lemma keeps_if_stmt:
  "(\<And>e. keeps f (raise e)) \<Longrightarrow> keeps f body \<Longrightarrow> keeps f (if_stmt c body)"
  by (simp add: keeps_def if_stmt_def split: sum.splits)

lemma confirm_skip: "confirmed en g = Inr False \<Longrightarrow> if_stmt (confirmed en) (confirm_block en) g = g"
  by (simp add: if_stmt_def)

lemma confirm_raise: "confirmed en g = Inl e \<Longrightarrow> if_stmt (confirmed en) (confirm_block en) g = raise e g"
  by (simp add: if_stmt_def)

lemma confirm_enter:
  "confirmed en g = Inr True \<Longrightarrow> if_stmt (confirmed en) (confirm_block en) g = confirm_block en g"
  by (simp add: if_stmt_def)

lemma confirmed_True:
  "confirmed en g = Inr True \<longleftrightarrow>
     pending (proposed_pr g) \<and> chat_history g \<noteq> [] \<and>
     (\<exists>m. fst (last (chat_history g)) = Some m \<and> is_ok en m)"
  by (cases "chat_history g")
     (auto simp add: confirmed_def pending_def split: option.splits)

lemma confirmed_False:
  "confirmed en g = Inr False \<longleftrightarrow>
     \<not> pending (proposed_pr g) \<or>
     (chat_history g \<noteq> [] \<and> (\<exists>m. fst (last (chat_history g)) = Some m \<and> \<not> is_ok en m))"
  by (cases "chat_history g")
     (auto simp add: confirmed_def pending_def split: option.splits)

lemma confirm_block_unreadable_plan:
  "status g = Running \<Longrightarrow> chat_history g \<noteq> [] \<Longrightarrow> proposed_pr g = Some p \<Longrightarrow>
   file_change_requests p = Inl e \<Longrightarrow>
   confirm_block en g =
     g\<lparr>chat_history := butlast (chat_history g) @ [(fst (last (chat_history g)), Some creating_pr)],
       trace := trace g @ [Yield (butlast (chat_history g) @ [(fst (last (chat_history g)), Some creating_pr)])
                                 (snippets_text g)],
       status := Raised e\<rparr>"
  by (simp add: confirm_block_def exec_def set_reply_nonempty yield_def emit_def
      call_create_pr_def raise_def)

lemma confirm_block_unreadable_meta:
  "status g = Running \<Longrightarrow> chat_history g \<noteq> [] \<Longrightarrow> proposed_pr g = Some p \<Longrightarrow>
   file_change_requests p = Inr f \<Longrightarrow> pull_request_meta p = Inl e \<Longrightarrow>
   confirm_block en g =
     g\<lparr>chat_history := butlast (chat_history g) @ [(fst (last (chat_history g)), Some creating_pr)],
       trace := trace g @ [Yield (butlast (chat_history g) @ [(fst (last (chat_history g)), Some creating_pr)])
                                 (snippets_text g)],
       status := Raised e\<rparr>"
  by (simp add: confirm_block_def exec_def set_reply_nonempty yield_def emit_def
      call_create_pr_def raise_def)

lemma confirm_block_call_failed:
  "status g = Running \<Longrightarrow> chat_history g \<noteq> [] \<Longrightarrow> proposed_pr g = Some p \<Longrightarrow>
   file_change_requests p = Inr f \<Longrightarrow> pull_request_meta p = Inr m \<Longrightarrow>
   h1 = butlast (chat_history g) @ [(fst (last (chat_history g)), Some creating_pr)] \<Longrightarrow>
   create_pr en f m h1 = Inl e \<Longrightarrow>
   confirm_block en g =
     g\<lparr>chat_history := h1,
       trace := trace g @ [Yield h1 (snippets_text g), CreatePR f m h1],
       status := Raised e\<rparr>"
  by (simp add: confirm_block_def exec_def set_reply_nonempty yield_def emit_def
      call_create_pr_def raise_def Let_def)

lemma confirm_block_created:
  "status g = Running \<Longrightarrow> chat_history g \<noteq> [] \<Longrightarrow> proposed_pr g = Some p \<Longrightarrow>
   file_change_requests p = Inr f \<Longrightarrow> pull_request_meta p = Inr m \<Longrightarrow>
   h1 = butlast (chat_history g) @ [(fst (last (chat_history g)), Some creating_pr)] \<Longrightarrow>
   create_pr en f m h1 = Inr url \<Longrightarrow>
   h2 = butlast (chat_history g) @ [(fst (last (chat_history g)), Some (pr_created_at @ url))] \<Longrightarrow>
   confirm_block en g =
     g\<lparr>chat_history := h2,
       pull_request := url,
       trace := trace g @ [Yield h1 (snippets_text g), CreatePR f m h1, Yield h2 (snippets_text g)],
       status := Returned\<rparr>"
  by (simp add: confirm_block_def exec_def set_reply_nonempty yield_def emit_def
      call_create_pr_def raise_def Let_def)

lemma at_confirm_facts:
  "proposed_pr (at_confirm en pr h txt) = pr \<and>
   status (at_confirm en pr h txt) \<noteq> Returned \<and>
   butlast (chat_history (at_confirm en pr h txt)) = butlast h \<and>
   map fst (chat_history (at_confirm en pr h txt)) = map fst h \<and>
   create_pr_calls (trace (at_confirm en pr h txt)) = [] \<and>
   stream_chat_calls (trace (at_confirm en pr h txt)) = [] \<and>
   search_calls (trace (at_confirm en pr h txt)) =
     (if needs_search txt \<and> h \<noteq> [] then [(fst (last h), 3)] else []) \<and>
   (status (at_confirm en pr h txt) = Running \<longleftrightarrow>
      \<not> needs_search txt \<or> (h \<noteq> [] \<and> (\<exists>ss. search en (fst (last h)) 3 = Inr ss))) \<and>
   (\<not> needs_search txt \<longrightarrow> snippets_text (at_confirm en pr h txt) = txt)"
proof (cases "needs_search txt")
  case False
  then show ?thesis
    by (simp add: at_confirm_no_search init_frame_def create_pr_calls_def stream_chat_calls_def
        search_calls_def)
next
  case ns: True
  show ?thesis
  proof (cases "h = []")
    case True
    then show ?thesis using ns
      by (simp add: at_confirm_empty init_frame_def create_pr_calls_def stream_chat_calls_def
          search_calls_def)
  next
    case ne: False
    show ?thesis
    proof (cases "search en (fst (last h)) 3")
      case (Inl e)
      then show ?thesis using ns ne
        by (simp add: at_confirm_search_failed init_frame_def create_pr_calls_def
            stream_chat_calls_def search_calls_def map_butlast [symmetric] snoc_eq_iff_butlast last_map)
    next
      case (Inr ss)
      then show ?thesis using ns ne
        by (simp add: at_confirm_search_ok init_frame_def create_pr_calls_def
            stream_chat_calls_def search_calls_def map_butlast [symmetric] snoc_eq_iff_butlast last_map)
    qed
  qed
qed

lemma search_calls_of_calls: "search_calls (calls tr) = search_calls tr"
  by (induction tr) (simp_all add: search_calls_def calls_def split: event.splits)

lemma create_pr_calls_of_calls: "create_pr_calls (calls tr) = create_pr_calls tr"
  by (induction tr) (simp_all add: create_pr_calls_def calls_def split: event.splits)

lemma stream_chat_calls_of_calls: "stream_chat_calls (calls tr) = stream_chat_calls tr"
  by (induction tr) (simp_all add: stream_chat_calls_def calls_def split: event.splits)

lemma keeps_calls_basic:
  "keeps (\<lambda>g. calls (trace g)) yield"
  "keeps (\<lambda>g. calls (trace g)) (raise e)"
  "keeps (\<lambda>g. calls (trace g)) (set_reply v)"
  "keeps (\<lambda>g. calls (trace g)) (add_reply t)"
  "keeps (\<lambda>g. calls (trace g)) (update_name fc)"
  "keeps (\<lambda>g. calls (trace g)) (append_arguments fc)"
  "keeps (\<lambda>g. calls (trace g)) (load_arguments en)"
  "keeps (\<lambda>g. calls (trace g)) (assert_key k)"
  "keeps (\<lambda>g. calls (trace g)) (derive_branch en)"
  "keeps (\<lambda>g. calls (trace g)) (show_proposal en)"
  by (simp_all add: keeps_def yield_def emit_def raise_def set_reply_def add_reply_def
      update_name_def append_arguments_def load_arguments_def assert_key_def derive_branch_def
      show_proposal_def calls_def
      split: list.splits option.splits sum.splits json.splits)

lemma keeps_pr_basic:
  "keeps proposed_pr yield"
  "keeps proposed_pr (raise e)"
  "keeps proposed_pr (set_reply v)"
  "keeps proposed_pr (add_reply t)"
  "keeps proposed_pr (update_name fc)"
  "keeps proposed_pr (append_arguments fc)"
  "keeps proposed_pr (load_arguments en)"
  "keeps proposed_pr (assert_key k)"
  "keeps proposed_pr (derive_branch en)"
  "keeps proposed_pr (show_proposal en)"
  "keeps proposed_pr (emit ev)"
  by (simp_all add: keeps_def yield_def emit_def raise_def set_reply_def add_reply_def
      update_name_def append_arguments_def load_arguments_def assert_key_def derive_branch_def
      show_proposal_def
      split: list.splits option.splits sum.splits json.splits)

lemma keeps_id: "keeps f id"
  by (simp add: keeps_def)

lemma keeps_dep: "(\<And>v. keeps f (s v)) \<Longrightarrow> keeps f (\<lambda>g. s (F g) g)"
  by (simp add: keeps_def)

lemma keeps_loop_body_gen:
  assumes y: "keeps f yield"
    and sr: "\<And>v. keeps f (set_reply v)"
    and ar: "\<And>t. keeps f (add_reply t)"
    and un: "\<And>fc. keeps f (update_name fc)"
    and aa: "\<And>fc. keeps f (append_arguments fc)"
  shows "keeps f (loop_body c)"
proof -
  have c1: "keeps f (content_stmt c)"
  proof (cases "chunk_content c")
    case None
    then show ?thesis by (simp add: content_stmt_def keeps_id)
  next
    case (Some t)
    have "keeps f (block [add_reply t, yield])"
      by (rule keeps_block) (auto intro: y ar)
    then show ?thesis using Some by (simp add: content_stmt_def keeps_id)
  qed
  have c2: "keeps f (call_stmt c)"
  proof (cases "chunk_function_call c")
    case None
    then show ?thesis by (simp add: call_stmt_def keeps_id)
  next
    case (Some fc)
    have "keeps f (block [update_name fc, append_arguments fc,
            (\<lambda>g. set_reply (render_call (function_name g) (raw_arguments g)) g), yield])"
      by (rule keeps_block) (auto intro: y un aa keeps_dep [of f set_reply] sr)
    then show ?thesis using Some by (simp add: call_stmt_def keeps_id)
  qed
  show ?thesis unfolding loop_body_def
    by (rule keeps_block) (auto intro: c1 c2)
qed

lemma keeps_loop_body:
  "keeps (\<lambda>g. calls (trace g)) (loop_body c)"
  "keeps proposed_pr (loop_body c)"
  by (rule keeps_loop_body_gen; rule keeps_calls_basic keeps_pr_basic)+

lemma keeps_loop:
  "keeps (\<lambda>g. calls (trace g)) (for_each loop_body cs)"
  "keeps proposed_pr (for_each loop_body cs)"
  by (rule keeps_for_each; rule keeps_loop_body)+

lemma keeps_finish_call_calls: "keeps (\<lambda>g. calls (trace g)) (finish_call en)"
proof -
  have ra: "\<And>e. keeps (\<lambda>g. calls (trace g)) (raise e)" by (rule keeps_calls_basic)
  have st: "keeps (\<lambda>g. calls (trace g)) (\<lambda>g. g\<lparr>proposed_pr := Some (arguments g)\<rparr>)"
    by (simp add: keeps_def)
  have cb: "keeps (\<lambda>g. calls (trace g)) (create_pr_block en)"
    unfolding create_pr_block_def
    by (rule keeps_block) (auto intro: keeps_calls_basic keeps_if_stmt st)
  have br: "keeps (\<lambda>g. calls (trace g))
              (\<lambda>g. if function_name g = Some (str ''create_pr'') then create_pr_block en g
                    else raise NotImplementedError g)"
    using cb ra by (simp add: keeps_def)
  have bl: "keeps (\<lambda>g. calls (trace g)) (block [load_arguments en,
              (\<lambda>g. if function_name g = Some (str ''create_pr'') then create_pr_block en g
                    else raise NotImplementedError g)])"
    by (rule keeps_block) (auto intro: keeps_calls_basic br)
  show ?thesis unfolding finish_call_def
    by (rule keeps_if_stmt) (rule ra bl)+
qed

lemma consume_stream_calls:
  "status g = Running \<Longrightarrow>
   calls (trace (consume_stream en g)) =
     calls (trace g) @ [StreamChat (chat_history g) (snippets g)]"
proof -
  assume run: "status g = Running"
  have e: "keeps (\<lambda>g. calls (trace g))
             (\<lambda>g. case snd (stream_chat en (chat_history g0) (snippets g0)) of
                     None \<Rightarrow> g | Some e \<Rightarrow> raise e g)" for g0
    using keeps_calls_basic(2) by (simp add: keeps_def split: option.splits)
  have i: "keeps (\<lambda>g. calls (trace g)) (\<lambda>g. g\<lparr>function_name := Some [], raw_arguments := []\<rparr>)"
    by (simp add: keeps_def)
  have rest: "keeps (\<lambda>g. calls (trace g))
               (block [(\<lambda>g. g\<lparr>function_name := Some [], raw_arguments := []\<rparr>),
                       for_each loop_body (fst (stream_chat en (chat_history g) (snippets g))),
                       (\<lambda>g'. case snd (stream_chat en (chat_history g) (snippets g)) of
                               None \<Rightarrow> g' | Some e \<Rightarrow> raise e g')])"
    by (rule keeps_block) (auto intro: e i keeps_loop)
  have step: "consume_stream en g =
      block [(\<lambda>g. g\<lparr>function_name := Some [], raw_arguments := []\<rparr>),
             for_each loop_body (fst (stream_chat en (chat_history g) (snippets g))),
             (\<lambda>g'. case snd (stream_chat en (chat_history g) (snippets g)) of
                     None \<Rightarrow> g' | Some e \<Rightarrow> raise e g')]
        (emit (StreamChat (chat_history g) (snippets g)) g)"
    unfolding consume_stream_def Let_def
    by (subst block.simps(2)) (simp only: exec_running [OF run])
  have "calls (trace (consume_stream en g)) =
        calls (trace (emit (StreamChat (chat_history g) (snippets g)) g))"
    unfolding step using rest unfolding keeps_def by blast
  then show ?thesis by (simp add: emit_def calls_def)
qed

lemma turn_from_confirm:
  "handle_message_stream en pr h txt =
     exec (generate_block en)
       (exec (if_stmt (confirmed en) (confirm_block en)) (at_confirm en pr h txt))"
  by (simp add: handle_message_stream_def at_confirm_def)

lemma generate_from_stream:
  "exec (generate_block en) g =
     exec (finish_call en) (exec (consume_stream en)
       (exec (block [
                (\<lambda>g. g\<lparr>chat_history := chat_history g @ [(None, Some (str ''Fetching endpoint...''))]\<rparr>),
                yield,
                set_reply []]) g))"
  by (simp add: generate_block_def exec_def block_stopped)

lemma at_stream_running:
  "status g = Running \<Longrightarrow>
   exec (block [
           (\<lambda>g. g\<lparr>chat_history := chat_history g @ [(None, Some (str ''Fetching endpoint...''))]\<rparr>),
           yield,
           set_reply []]) g =
     g\<lparr>chat_history := chat_history g @ [(None, Some [])],
       trace := trace g @ [Yield (chat_history g @ [(None, Some (str ''Fetching endpoint...''))])
                                 (snippets_text g)]\<rparr>"
  by (simp add: exec_def yield_def emit_def set_reply_nonempty)

lemma block_returns:
  "status (block (ss @ [(\<lambda>g. g\<lparr>status := Returned\<rparr>)]) g) \<noteq> Running"
  by (simp add: block_append exec_def)

lemma confirm_block_stops: "status (confirm_block en g) \<noteq> Running"
  using block_returns [of "[set_reply creating_pr, yield, call_create_pr en,
      (\<lambda>g. set_reply (pr_created_at @ pull_request g) g), yield]" g]
  by (simp add: confirm_block_def)

lemma keeps_confirm_basic:
  "keeps (\<lambda>g. search_calls (trace g)) (set_reply v)"
  "keeps (\<lambda>g. search_calls (trace g)) yield"
  "keeps (\<lambda>g. search_calls (trace g)) (raise e)"
  "keeps (\<lambda>g. search_calls (trace g)) (call_create_pr en)"
  "keeps (\<lambda>g. search_calls (trace g)) (\<lambda>g. g\<lparr>status := Returned\<rparr>)"
  "keeps (\<lambda>g. stream_chat_calls (trace g)) (set_reply v)"
  "keeps (\<lambda>g. stream_chat_calls (trace g)) yield"
  "keeps (\<lambda>g. stream_chat_calls (trace g)) (raise e)"
  "keeps (\<lambda>g. stream_chat_calls (trace g)) (call_create_pr en)"
  "keeps (\<lambda>g. stream_chat_calls (trace g)) (\<lambda>g. g\<lparr>status := Returned\<rparr>)"
  "keeps proposed_pr (call_create_pr en)"
  "keeps proposed_pr (\<lambda>g. g\<lparr>status := Returned\<rparr>)"
  "keeps (\<lambda>g. butlast (chat_history g)) (set_reply v)"
  "keeps (\<lambda>g. butlast (chat_history g)) yield"
  "keeps (\<lambda>g. butlast (chat_history g)) (raise e)"
  "keeps (\<lambda>g. butlast (chat_history g)) (call_create_pr en)"
  "keeps (\<lambda>g. butlast (chat_history g)) (\<lambda>g. g\<lparr>status := Returned\<rparr>)"
  "keeps (\<lambda>g. map fst (chat_history g)) (set_reply v)"
  "keeps (\<lambda>g. map fst (chat_history g)) yield"
  "keeps (\<lambda>g. map fst (chat_history g)) (raise e)"
  "keeps (\<lambda>g. map fst (chat_history g)) (call_create_pr en)"
  "keeps (\<lambda>g. map fst (chat_history g)) (\<lambda>g. g\<lparr>status := Returned\<rparr>)"
  by (simp_all add: keeps_def yield_def emit_def raise_def set_reply_def call_create_pr_def
      search_calls_def stream_chat_calls_def Let_def map_butlast [symmetric]
      snoc_eq_iff_butlast last_map
      split: list.splits option.splits sum.splits)

lemma keeps_confirm_gen:
  assumes "\<And>v. keeps f (set_reply v)" "keeps f yield" "\<And>e. keeps f (raise e)"
    "keeps f (call_create_pr en)" "keeps f (\<lambda>g. g\<lparr>status := Returned\<rparr>)"
  shows "keeps f (if_stmt (confirmed en) (confirm_block en))"
proof -
  have "keeps f (confirm_block en)" unfolding confirm_block_def
    by (rule keeps_block) (auto intro: assms keeps_dep [of f set_reply])
  then show ?thesis by (rule keeps_if_stmt [OF assms(3)])
qed

lemma keeps_confirm:
  "keeps (\<lambda>g. search_calls (trace g)) (if_stmt (confirmed en) (confirm_block en))"
  "keeps (\<lambda>g. stream_chat_calls (trace g)) (if_stmt (confirmed en) (confirm_block en))"
  "keeps proposed_pr (if_stmt (confirmed en) (confirm_block en))"
  "keeps (\<lambda>g. butlast (chat_history g)) (if_stmt (confirmed en) (confirm_block en))"
  "keeps (\<lambda>g. map fst (chat_history g)) (if_stmt (confirmed en) (confirm_block en))"
  by (rule keeps_confirm_gen; rule keeps_confirm_basic keeps_pr_basic)+

lemma generate_calls:
  assumes run: "status g = Running"
  shows "calls (trace (exec (generate_block en) g)) =
           calls (trace g) @ [StreamChat (chat_history g @ [(None, Some [])]) (snippets g)]"
proof -
  define g2 where "g2 =
     g\<lparr>chat_history := chat_history g @ [(None, Some [])],
       trace := trace g @ [Yield (chat_history g @ [(None, Some (str ''Fetching endpoint...''))])
                                 (snippets_text g)]\<rparr>"
  have r2: "status g2 = Running" using run by (simp add: g2_def)
  have "exec (generate_block en) g = exec (finish_call en) (consume_stream en g2)"
    unfolding generate_from_stream at_stream_running [OF run] g2_def [symmetric]
    by (simp only: exec_running [OF r2])
  then have "calls (trace (exec (generate_block en) g)) = calls (trace (consume_stream en g2))"
    using keeps_exec [OF keeps_finish_call_calls, of en] by (simp add: keeps_def)
  also have "\<dots> = calls (trace g2) @ [StreamChat (chat_history g2) (snippets g2)]"
    by (rule consume_stream_calls [OF r2])
  finally show ?thesis by (simp add: g2_def calls_def)
qed

lemma generate_search_calls:
  "search_calls (trace (exec (generate_block en) g)) = search_calls (trace g)"
proof (cases "status g = Running")
  case True
  have "search_calls (calls (trace (exec (generate_block en) g))) = search_calls (calls (trace g))"
    unfolding generate_calls [OF True] by (simp add: search_calls_def)
  then show ?thesis by (simp only: search_calls_of_calls)
next
  case False
  then show ?thesis by (simp add: exec_def)
qed

lemma turn_search_calls:
  "search_calls (trace (handle_message_stream en pr h txt)) =
     search_calls (trace (at_confirm en pr h txt))"
  unfolding turn_from_confirm generate_search_calls
  using keeps_exec [OF keeps_confirm(1), of en] by (simp add: keeps_def)

lemma needs_search_iff: "needs_search txt \<longleftrightarrow> txt \<noteq> [] \<and> newline \<notin> set (py_strip txt)"
  by (simp add: needs_search_def count_list_0_iff)

text \<open>
  C1, as the code has it: in a submitted turn the search is called exactly once, with the
  latest user message and fanout 3, when the snippet block is not empty and has no line
  break once its surrounding whitespace is stripped; otherwise it is not called at all.
\<close>

theorem search_once_iff_block_stripped:
  assumes "handle_message_submit repo_full_name user_message h0 = Inr h"
  shows "search_calls (trace (handle_message_stream en pr h txt)) =
           (if txt \<noteq> [] \<and> newline \<notin> set (py_strip txt) then [(Some user_message, 3)] else [])"
proof -
  have h: "h = h0 @ [(Some user_message, None)]"
    using assms by (simp add: handle_message_submit_def split: if_splits)
  show ?thesis
    unfolding turn_search_calls using at_confirm_facts [of en "pr" h "txt"]
    by (simp add: needs_search_iff h)
qed



lemma strip_examples:
  "py_strip [] = []"
  "py_strip ((str ''### Relevant snippets:'') @ [0x0A]) = (str ''### Relevant snippets:'')"
  "py_strip (str ''### Relevant snippets'') = (str ''### Relevant snippets'')"
  "lower example_env (py_strip (str '' OK '')) = (str ''ok'')"
  "lower example_env (py_strip (str ''ok'')) = (str ''ok'')"
  "lower example_env (py_strip (str ''ok please wait'')) = (str ''ok please wait'')"
  "lower failing_search_env (py_strip (str ''ok'')) = (str ''ok'')"
  by (simp_all add: py_strip_def py_isspace_def newline_def str_def example_env_def
      failing_search_env_def ascii_lower_def)

theorem search_once_iff_block_stripped_witness:
  "handle_message_submit (str ''o/r'') (str ''hi'') [] = Inr [(Some (str ''hi''), None)] \<and>
   search_calls (trace (handle_message_stream example_env None [(Some (str ''hi''), None)]
       (str ''### Relevant snippets''))) = [(Some (str ''hi''), 3)]"
  using search_once_iff_block_stripped [of "(str ''o/r'')" "(str ''hi'')" "[]" "[(Some (str ''hi''), None)]"
      example_env None "(str ''### Relevant snippets'')"]
  by (simp add: handle_message_submit_def strip_examples newline_def)

text \<open>
  C1 as stated fails twice: an empty block triggers no search, and the block that
  \<open>build_string\<close> renders for no selected file, which ends in a line break, triggers one.
\<close>

theorem search_iff_empty_or_no_line_break_counterexample:
  "search_calls (trace (handle_message_stream example_env None [(Some (str ''hi''), None)] [])) = [] \<and>
   newline \<in> set ((str ''### Relevant snippets:'') @ [newline]) \<and>
   search_calls (trace (handle_message_stream example_env None [(Some (str ''hi''), None)]
       ((str ''### Relevant snippets:'') @ [newline]))) = [(Some (str ''hi''), 3)]"
  using at_confirm_facts [of example_env None "[(Some (str ''hi''), None)]" "[]"]
    at_confirm_facts [of example_env None "[(Some (str ''hi''), None)]"
      "(str ''### Relevant snippets:'') @ [newline]"]
  by (simp add: turn_search_calls needs_search_iff strip_examples newline_def)


lemma emap_Inr: "emap g xs = Inr ys \<Longrightarrow> list_all2 (\<lambda>x y. g x = Inr y) xs ys"
proof (induction xs arbitrary: ys)
  case Nil
  then show ?case by simp
next
  case (Cons x xs)
  then show ?case by (auto simp add: ebind_def split: sum.splits)
qed

lemma reshape_item_Inr:
  "reshape_item item = Inr fr \<Longrightarrow>
   py_getitem item (str ''file_path'') = Inr (fst fr) \<and> py_getitem item (str ''instructions'') = Inr (snd fr)"
  by (auto simp add: reshape_item_def ebind_def split: sum.splits)

lemma file_change_requests_Inr:
  assumes "file_change_requests p = Inr f"
  shows "\<exists>plan items. py_getitem p (str ''plan'') = Inr plan \<and> py_iter plan = Inr items \<and>
           list_all2 (\<lambda>item fr. py_getitem item (str ''file_path'') = Inr (fst fr) \<and>
                                  py_getitem item (str ''instructions'') = Inr (snd fr)) items f"
proof -
  from assms obtain plan items where a: "py_getitem p (str ''plan'') = Inr plan"
    "py_iter plan = Inr items" "emap reshape_item items = Inr f"
    by (auto simp add: file_change_requests_def ebind_def split: sum.splits)
  have "list_all2 (\<lambda>x y. reshape_item x = Inr y) items f" using a(3) by (rule emap_Inr)
  then have "list_all2 (\<lambda>item fr. py_getitem item (str ''file_path'') = Inr (fst fr) \<and>
               py_getitem item (str ''instructions'') = Inr (snd fr)) items f"
    by (rule list_all2_mono) (rule reshape_item_Inr)
  with a show ?thesis by blast
qed

lemma pull_request_meta_Inr:
  "pull_request_meta p = Inr m \<Longrightarrow>
   py_getitem p (str ''title'') = Inr (fst m) \<and> py_getitem p (str ''summary'') = Inr (fst (snd m)) \<and>
   py_getitem p (str ''branch'') = Inr (snd (snd m))"
  by (auto simp add: pull_request_meta_def ebind_def split: sum.splits)

lemma confirm_block_calls:
  assumes "status g = Running" "chat_history g \<noteq> []" "proposed_pr g = Some p"
  shows "create_pr_calls (trace (confirm_block en g)) =
           create_pr_calls (trace g) @ issued (proposed_pr g) (chat_history g)"
proof (cases "file_change_requests p")
  case (Inl e)
  show ?thesis
    unfolding confirm_block_unreadable_plan [OF assms Inl]
    using assms(3) Inl by (simp add: issued_def create_pr_calls_def)
next
  case f: (Inr f)
  show ?thesis
  proof (cases "pull_request_meta p")
    case (Inl e)
    show ?thesis
      unfolding confirm_block_unreadable_meta [OF assms f Inl]
      using assms(3) f Inl by (simp add: issued_def create_pr_calls_def)
  next
    case m: (Inr m)
    show ?thesis
    proof (cases "create_pr en f m
        (butlast (chat_history g) @ [(fst (last (chat_history g)), Some creating_pr)])")
      case (Inl e)
      show ?thesis
        unfolding confirm_block_call_failed [OF assms f m refl Inl]
        using assms(3) f m by (simp add: issued_def create_pr_calls_def)
    next
      case (Inr url)
      show ?thesis
        unfolding confirm_block_created [OF assms f m refl Inr refl]
        using assms(3) f m by (simp add: issued_def create_pr_calls_def)
    qed
  qed
qed

lemma issued_cong:
  "butlast a = butlast b \<Longrightarrow> fst (last a) = fst (last b) \<Longrightarrow> issued pr a = issued pr b"
  by (auto simp add: issued_def split: option.splits sum.splits)

lemma generate_create_pr_calls:
  "create_pr_calls (trace (exec (generate_block en) g)) = create_pr_calls (trace g)"
proof (cases "status g = Running")
  case True
  have "create_pr_calls (calls (trace (exec (generate_block en) g))) =
        create_pr_calls (calls (trace g))"
    unfolding generate_calls [OF True] by (simp add: create_pr_calls_def)
  then show ?thesis by (simp only: create_pr_calls_of_calls)
next
  case False
  then show ?thesis by (simp add: exec_def)
qed

lemma confirmed_at_confirm:
  "confirmed en (at_confirm en pr h txt) = Inr True \<longleftrightarrow>
     pending pr \<and> h \<noteq> [] \<and> (\<exists>m. fst (last h) = Some m \<and> is_ok en m)"
proof -
  have f: "map fst (chat_history (at_confirm en pr h txt)) = map fst h"
          "proposed_pr (at_confirm en pr h txt) = pr"
    using at_confirm_facts [of en "pr" h "txt"] by simp_all
  have e: "chat_history (at_confirm en pr h txt) = [] \<longleftrightarrow> h = []"
    using f(1) by (metis map_is_Nil_conv)
  have l: "h \<noteq> [] \<Longrightarrow> fst (last (chat_history (at_confirm en pr h txt))) = fst (last h)"
    using f(1) e by (metis last_map)
  show ?thesis
  proof (cases "h = []")
    case True
    then show ?thesis unfolding confirmed_True using e by simp
  next
    case False
    then show ?thesis unfolding confirmed_True f(2) using e l by simp
  qed
qed

lemma turn_create_pr_calls:
  "create_pr_calls (trace (handle_message_stream en pr h txt)) =
     (if status (at_confirm en pr h txt) = Running \<and> pending pr \<and> h \<noteq> [] \<and>
         (\<exists>m. fst (last h) = Some m \<and> is_ok en m)
      then issued pr h else [])"
proof -
  have c0: "create_pr_calls (trace (at_confirm en pr h txt)) = []"
    and f2: "proposed_pr (at_confirm en pr h txt) = pr"
    and f3: "butlast (chat_history (at_confirm en pr h txt)) = butlast h"
    and f4: "map fst (chat_history (at_confirm en pr h txt)) = map fst h"
    using at_confirm_facts [of en "pr" h "txt"] by simp_all
  show ?thesis
  proof (cases "status (at_confirm en pr h txt) = Running")
    case False
    then show ?thesis using c0 by (simp add: turn_from_confirm exec_def)
  next
    case run: True
    show ?thesis
    proof (cases "confirmed en (at_confirm en pr h txt)")
      case (Inl e)
      then have n: "\<not> (pending pr \<and> h \<noteq> [] \<and> (\<exists>m. fst (last h) = Some m \<and> is_ok en m))"
        using confirmed_at_confirm [of en "pr" h "txt"] by simp
      have "handle_message_stream en pr h txt = raise e (at_confirm en pr h txt)"
        using run Inl by (simp add: turn_from_confirm exec_def confirm_raise raise_def)
      then have cc: "create_pr_calls (trace (handle_message_stream en pr h txt)) = []"
        using c0 by (simp add: raise_def)
      show ?thesis unfolding cc using n by auto
    next
      case (Inr b)
      show ?thesis
      proof (cases b)
        case False
        then have n: "\<not> (pending pr \<and> h \<noteq> [] \<and> (\<exists>m. fst (last h) = Some m \<and> is_ok en m))"
          using Inr confirmed_at_confirm [of en "pr" h "txt"] by simp
        have "handle_message_stream en pr h txt =
              exec (generate_block en) (at_confirm en pr h txt)"
          using run Inr False by (simp add: turn_from_confirm exec_running confirm_skip)
        then have cc: "create_pr_calls (trace (handle_message_stream en pr h txt)) = []"
          using c0 by (simp add: generate_create_pr_calls)
        show ?thesis unfolding cc using n by auto
      next
        case True
        then have c: "confirmed en (at_confirm en pr h txt) = Inr True" using Inr by simp
        then have y: "pending pr" "h \<noteq> []" "\<exists>m. fst (last h) = Some m \<and> is_ok en m"
          using confirmed_at_confirm [of en "pr" h "txt"] by simp_all
        obtain p where p: "pr = Some p" using y(1) by (cases "pr") (simp_all add: pending_def)
        have ne: "chat_history (at_confirm en pr h txt) \<noteq> []"
          using f4 y(2) by (metis map_is_Nil_conv)
        have lf: "fst (last (chat_history (at_confirm en pr h txt))) = fst (last h)"
          using f4 ne y(2) by (metis last_map)
        have "handle_message_stream en pr h txt = confirm_block en (at_confirm en pr h txt)"
          using run c by (simp add: turn_from_confirm exec_running confirm_enter
              exec_stopped confirm_block_stops)
        then have "create_pr_calls (trace (handle_message_stream en pr h txt)) =
            issued pr (chat_history (at_confirm en pr h txt))"
          using confirm_block_calls [OF run ne, of p en] f2 c0 p by simp
        also have "\<dots> = issued pr h"
          by (rule issued_cong [OF f3 lf])
        finally have cc: "create_pr_calls (trace (handle_message_stream en pr h txt)) =
            issued pr h" .
        show ?thesis unfolding cc using run y by auto
      qed
    qed
  qed
qed

lemma at_confirm_running:
  "status (at_confirm en pr h txt) = Running \<longleftrightarrow>
     \<not> needs_search txt \<or> (h \<noteq> [] \<and> (\<exists>ss. search en (fst (last h)) 3 = Inr ss))"
  using at_confirm_facts [of en "pr" h "txt"] by blast

lemma call_issued:
  assumes "(f, m, hh) \<in> set (create_pr_calls (trace (handle_message_stream en pr h txt)))"
  shows "status (at_confirm en pr h txt) = Running \<and> pending pr \<and> h \<noteq> [] \<and>
         (\<exists>m0. fst (last h) = Some m0 \<and> is_ok en m0) \<and>
         (\<exists>p. pr = Some p \<and> file_change_requests p = Inr f \<and> pull_request_meta p = Inr m) \<and>
         hh = butlast h @ [(fst (last h), Some creating_pr)]"
proof -
  have c: "status (at_confirm en pr h txt) = Running \<and> pending pr \<and> h \<noteq> [] \<and>
         (\<exists>m0. fst (last h) = Some m0 \<and> is_ok en m0)"
    using assms unfolding turn_create_pr_calls by (auto split: if_splits)
  then have "(f, m, hh) \<in> set (issued pr h)"
    using assms unfolding turn_create_pr_calls by auto
  then have "(\<exists>p. pr = Some p \<and> file_change_requests p = Inr f \<and> pull_request_meta p = Inr m) \<and>
         hh = butlast h @ [(fst (last h), Some creating_pr)]"
    by (auto simp add: issued_def split: option.splits sum.splits)
  with c show ?thesis by blast
qed

lemma ok_issues:
  assumes "status (at_confirm en pr h txt) = Running" "h \<noteq> []" "fst (last h) = Some m0"
    "is_ok en m0" "pending pr" "pr = Some p" "file_change_requests p = Inr f"
    "pull_request_meta p = Inr m"
  shows "create_pr_calls (trace (handle_message_stream en pr h txt)) =
           [(f, m, butlast h @ [(Some m0, Some creating_pr)])]"
  unfolding turn_create_pr_calls using assms by (auto simp add: issued_def)

lemma turn_created:
  assumes run: "status (at_confirm en pr h txt) = Running"
    and h: "h \<noteq> []" "fst (last h) = Some m0" "is_ok en m0"
    and p: "pending pr" "pr = Some p" "file_change_requests p = Inr f"
      "pull_request_meta p = Inr m"
    and c: "create_pr en f m (butlast h @ [(fst (last h), Some creating_pr)]) = Inr url"
  shows "status (handle_message_stream en pr h txt) = Returned \<and>
         chat_history (handle_message_stream en pr h txt) =
           butlast h @ [(fst (last h), Some (pr_created_at @ url))] \<and>
         proposed_pr (handle_message_stream en pr h txt) = pr \<and>
         snippets_text (handle_message_stream en pr h txt) =
           snippets_text (at_confirm en pr h txt) \<and>
         trace (handle_message_stream en pr h txt) =
           trace (at_confirm en pr h txt) @
           [Yield (butlast h @ [(fst (last h), Some creating_pr)])
                  (snippets_text (at_confirm en pr h txt)),
            CreatePR f m (butlast h @ [(fst (last h), Some creating_pr)]),
            Yield (butlast h @ [(fst (last h), Some (pr_created_at @ url))])
                  (snippets_text (at_confirm en pr h txt))]"
proof -
  have f2: "proposed_pr (at_confirm en pr h txt) = pr"
    and f3: "butlast (chat_history (at_confirm en pr h txt)) = butlast h"
    and f4: "map fst (chat_history (at_confirm en pr h txt)) = map fst h"
    using at_confirm_facts [of en "pr" h "txt"] by simp_all
  have ne: "chat_history (at_confirm en pr h txt) \<noteq> []"
    using f4 h(1) by (metis map_is_Nil_conv)
  have lf: "fst (last (chat_history (at_confirm en pr h txt))) = fst (last h)"
    using f4 ne h(1) by (metis last_map)
  have cf: "confirmed en (at_confirm en pr h txt) = Inr True"
    using confirmed_at_confirm [of en "pr" h "txt"] h p(1) by simp
  have t: "handle_message_stream en pr h txt = confirm_block en (at_confirm en pr h txt)"
    using run cf by (simp add: turn_from_confirm exec_running confirm_enter
        exec_stopped confirm_block_stops)
  have pp: "proposed_pr (at_confirm en pr h txt) = Some p" using f2 p(2) by simp
  have cc: "create_pr en f m (butlast (chat_history (at_confirm en pr h txt)) @
      [(fst (last (chat_history (at_confirm en pr h txt))), Some creating_pr)]) = Inr url"
    using c f3 lf by simp
  show ?thesis
    unfolding t confirm_block_created [OF run ne pp p(3) p(4) refl cc refl]
    using f2 f3 lf by simp
qed

lemma example_proposal_read:
  "file_change_requests example_proposal = Inr [(JStr (str ''a.py''), JStr (str ''cover f''))]"
  "pull_request_meta example_proposal =
     Inr (JStr (str ''Add tests''), JStr (str ''Unit tests for a.py''), JStr (str ''add_tests''))"
  "pending (Some example_proposal)"
  "readable example_proposal"
  by (simp_all add: file_change_requests_def pull_request_meta_def reshape_item_def ebind_def
      example_proposal_def pending_def readable_def)

lemma example_env_running:
  "h \<noteq> [] \<Longrightarrow> status (at_confirm example_env pr h txt) = Running"
  by (simp add: at_confirm_running example_env_def)

lemma example_env_search: "search example_env q k = Inr []"
  by (simp add: example_env_def)

lemma is_ok_iff: "is_ok en m \<longleftrightarrow> lower en (py_strip m) = (str ''ok'') \<or> lower en (py_strip m) = (str ''okay'')"
  by (auto simp add: is_ok_def)

lemma issued_readable:
  "pr = Some p \<Longrightarrow> readable p \<Longrightarrow> issued pr h \<noteq> []"
  by (auto simp add: issued_def readable_def split: sum.splits)

text \<open>
  C2, as the code has it: the check of line 124 comes after the snippet search. In a
  submitted turn whose search, when one is triggered, returns, and with a pending proposal
  that is readable as every stored one is, the create-PR call is issued exactly when the
  message, stripped and lower-cased, is \<open>ok\<close> or \<open>okay\<close>; with no pending proposal no
  message issues it.
\<close>

theorem create_pr_issued_iff_ok:
  assumes "handle_message_submit repo_full_name user_message h0 = Inr h"
    and "needs_search txt \<longrightarrow> (\<exists>ss. search en (Some user_message) 3 = Inr ss)"
    and "\<forall>p. pr = Some p \<longrightarrow> readable p"
  shows "create_pr_calls (trace (handle_message_stream en pr h txt)) \<noteq> [] \<longleftrightarrow>
           pending pr \<and> (lower en (py_strip user_message) = (str ''ok'') \<or>
                          lower en (py_strip user_message) = (str ''okay''))"
proof -
  have h: "h = h0 @ [(Some user_message, None)]"
    using assms(1) by (simp add: handle_message_submit_def split: if_splits)
  have run: "status (at_confirm en pr h txt) = Running"
    using assms(2) by (auto simp add: at_confirm_running h)
  show ?thesis
  proof (cases "pending pr \<and> is_ok en user_message")
    case True
    then obtain p where p: "pr = Some p" by (cases "pr") (simp_all add: pending_def)
    have "issued pr h \<noteq> []" using p assms(3) by (simp add: issued_readable)
    then show ?thesis unfolding turn_create_pr_calls using True run
      by (simp add: h is_ok_iff)
  next
    case False
    then show ?thesis unfolding turn_create_pr_calls by (auto simp add: h is_ok_iff)
  qed
qed

theorem create_pr_issued_iff_ok_witness:
  "handle_message_submit (str ''o/r'') (str '' OK '') [] = Inr [(Some (str '' OK ''), None)] \<and>
   needs_search (str ''### Relevant snippets'') \<and>
   search example_env (Some (str '' OK '')) 3 = Inr [] \<and>
   pending (Some example_proposal) \<and> readable example_proposal \<and>
   create_pr_calls (trace (handle_message_stream example_env (Some example_proposal)
      [(Some (str '' OK ''), None)] (str ''### Relevant snippets''))) \<noteq> []"
  using create_pr_issued_iff_ok [of "(str ''o/r'')" "(str '' OK '')" "[]" "[(Some (str '' OK ''), None)]"
      "(str ''### Relevant snippets'')" example_env "Some example_proposal"]
  by (simp add: handle_message_submit_def example_proposal_read strip_examples
      example_env_search needs_search_iff newline_def)

text \<open>
  C2 as stated fails when the search of the turn fails: a proposal is pending and the
  message is \<open>ok\<close>, yet the turn ends with the search's exception and no create-PR call.
\<close>

theorem create_pr_issued_iff_ok_counterexample:
  "pending (Some example_proposal) \<and>
   lower failing_search_env (py_strip (str ''ok'')) = (str ''ok'') \<and>
   create_pr_calls (trace (handle_message_stream failing_search_env (Some example_proposal)
      [(Some (str ''ok''), None)] (str ''### Relevant snippets''))) = [] \<and>
   status (handle_message_stream failing_search_env (Some example_proposal)
      [(Some (str ''ok''), None)] (str ''### Relevant snippets'')) = Raised (Exception (str ''timeout''))"
proof -
  have ns: "needs_search (str ''### Relevant snippets'')"
    by (simp add: needs_search_iff strip_examples newline_def)
  have s: "search failing_search_env (fst (last [(Some (str ''ok''), None)])) 3 =
             Inl (Exception (str ''timeout''))"
    by (simp add: failing_search_env_def)
  have g: "status (at_confirm failing_search_env (Some example_proposal)
             [(Some (str ''ok''), None)] (str ''### Relevant snippets'')) = Raised (Exception (str ''timeout''))"
    by (simp add: at_confirm_search_failed [OF ns _ s])
  have c: "create_pr_calls (trace (handle_message_stream failing_search_env
      (Some example_proposal) [(Some (str ''ok''), None)] (str ''### Relevant snippets''))) = []"
    using g by (simp add: turn_create_pr_calls)
  have "status (handle_message_stream failing_search_env (Some example_proposal)
      [(Some (str ''ok''), None)] (str ''### Relevant snippets'')) = Raised (Exception (str ''timeout''))"
    using g by (simp add: turn_from_confirm exec_def)
  then show ?thesis using c by (simp add: example_proposal_read strip_examples)
qed

lemma last_reply_alt: "last_reply h = (if h = [] then None else snd (last h))"
  by (cases h) (simp_all add: last_reply_def)

text \<open>
  C3: a create-PR call of a turn gets the pending proposal's plan entries as
  (\<open>file_path\<close>, \<open>instructions\<close>) pairs, a descriptor made of the proposal's title, its
  summary as content and its branch as branch name, and the chat history as it stands, which
  is the submitted history with the last assistant slot set; when the call returns a URL the
  turn yields, last of all, the history whose assistant message is the confirmation text
  with that URL in it, and returns.
\<close>

theorem create_pr_call_arguments:
  assumes "(f, m, hh) \<in> set (create_pr_calls (trace (handle_message_stream en pr h txt)))"
  shows "(\<exists>p plan items.
            pr = Some p \<and> py_getitem p (str ''plan'') = Inr plan \<and> py_iter plan = Inr items \<and>
            list_all2 (\<lambda>item fr. py_getitem item (str ''file_path'') = Inr (fst fr) \<and>
                                   py_getitem item (str ''instructions'') = Inr (snd fr)) items f \<and>
            py_getitem p (str ''title'') = Inr (fst m) \<and>
            py_getitem p (str ''summary'') = Inr (fst (snd m)) \<and>
            py_getitem p (str ''branch'') = Inr (snd (snd m))) \<and>
         h \<noteq> [] \<and> hh = butlast h @ [(fst (last h), Some creating_pr)] \<and>
         (\<forall>url. create_pr en f m hh = Inr url \<longrightarrow>
            status (handle_message_stream en pr h txt) = Returned \<and>
            last_reply (chat_history (handle_message_stream en pr h txt)) =
              Some (pr_created_at @ url) \<and>
            sublist url (pr_created_at @ url) \<and>
            (\<exists>before.
               trace (handle_message_stream en pr h txt) =
                 before @
                 [Yield hh (snippets_text (handle_message_stream en pr h txt)),
                  CreatePR f m hh,
                  Yield (butlast h @ [(fst (last h), Some (pr_created_at @ url))])
                        (snippets_text (handle_message_stream en pr h txt))]))"
proof -
  from call_issued [OF assms] obtain p m0 where
    run: "status (at_confirm en pr h txt) = Running" and pe: "pending pr" and ne: "h \<noteq> []"
    and m0: "fst (last h) = Some m0" "is_ok en m0"
    and p: "pr = Some p" "file_change_requests p = Inr f" "pull_request_meta p = Inr m"
    and hh: "hh = butlast h @ [(fst (last h), Some creating_pr)]"
    by blast
  from file_change_requests_Inr [OF p(2)] obtain plan items where
    a: "py_getitem p (str ''plan'') = Inr plan" "py_iter plan = Inr items"
       "list_all2 (\<lambda>item fr. py_getitem item (str ''file_path'') = Inr (fst fr) \<and>
                              py_getitem item (str ''instructions'') = Inr (snd fr)) items f"
    by blast
  note b = pull_request_meta_Inr [OF p(3)]
  have first: "\<exists>p plan items.
            pr = Some p \<and> py_getitem p (str ''plan'') = Inr plan \<and> py_iter plan = Inr items \<and>
            list_all2 (\<lambda>item fr. py_getitem item (str ''file_path'') = Inr (fst fr) \<and>
                                   py_getitem item (str ''instructions'') = Inr (snd fr)) items f \<and>
            py_getitem p (str ''title'') = Inr (fst m) \<and>
            py_getitem p (str ''summary'') = Inr (fst (snd m)) \<and>
            py_getitem p (str ''branch'') = Inr (snd (snd m))"
    using p(1) a b by blast
  have last: "status (handle_message_stream en pr h txt) = Returned \<and>
            last_reply (chat_history (handle_message_stream en pr h txt)) =
              Some (pr_created_at @ url) \<and>
            sublist url (pr_created_at @ url) \<and>
            (\<exists>before.
               trace (handle_message_stream en pr h txt) =
                 before @
                 [Yield hh (snippets_text (handle_message_stream en pr h txt)),
                  CreatePR f m hh,
                  Yield (butlast h @ [(fst (last h), Some (pr_created_at @ url))])
                        (snippets_text (handle_message_stream en pr h txt))])"
    if u: "create_pr en f m hh = Inr url" for url
  proof -
    note t = turn_created [OF run ne m0 pe p u [unfolded hh]]
    have s: "sublist url (pr_created_at @ url)"
      by (metis sublist_appendI append_Nil2)
    have tr: "\<exists>before.
               trace (handle_message_stream en pr h txt) =
                 before @
                 [Yield hh (snippets_text (handle_message_stream en pr h txt)),
                  CreatePR f m hh,
                  Yield (butlast h @ [(fst (last h), Some (pr_created_at @ url))])
                        (snippets_text (handle_message_stream en pr h txt))]"
      using t unfolding hh by auto
    have "status (handle_message_stream en pr h txt) = Returned \<and>
          last_reply (chat_history (handle_message_stream en pr h txt)) =
              Some (pr_created_at @ url)"
      using t by (simp add: last_reply_alt)
    with s tr show ?thesis by blast
  qed
  show ?thesis using first ne hh last by blast
qed

theorem create_pr_call_arguments_witness:
  "([(JStr (str ''a.py''), JStr (str ''cover f''))],
    (JStr (str ''Add tests''), JStr (str ''Unit tests for a.py''), JStr (str ''add_tests'')),
    [(Some (str ''ok''), Some creating_pr)])
     \<in> set (create_pr_calls (trace (handle_message_stream example_env (Some example_proposal)
          [(Some (str ''ok''), None)] (str ''### Relevant snippets'')))) \<and>
   status (handle_message_stream example_env (Some example_proposal)
          [(Some (str ''ok''), None)] (str ''### Relevant snippets'')) = Returned \<and>
   last_reply (chat_history (handle_message_stream example_env (Some example_proposal)
          [(Some (str ''ok''), None)] (str ''### Relevant snippets''))) =
     Some (pr_created_at @ (str ''https://github.com/o/r/pull/1'')) \<and>
   last (trace (handle_message_stream example_env (Some example_proposal)
          [(Some (str ''ok''), None)] (str ''### Relevant snippets''))) =
     Yield [(Some (str ''ok''), Some (pr_created_at @ (str ''https://github.com/o/r/pull/1'')))]
       (snippets_text (handle_message_stream example_env (Some example_proposal)
          [(Some (str ''ok''), None)] (str ''### Relevant snippets'')))"
proof -
  let ?R = "handle_message_stream example_env (Some example_proposal)
          [(Some (str ''ok''), None)] (str ''### Relevant snippets'')"
  let ?f = "[(JStr (str ''a.py''), JStr (str ''cover f''))]"
  let ?m = "(JStr (str ''Add tests''), JStr (str ''Unit tests for a.py''), JStr (str ''add_tests''))"
  let ?hh = "[(Some (str ''ok''), Some creating_pr)]"
  let ?h = "[(Some (str ''ok''), None)] :: history"
  let ?url = "(str ''https://github.com/o/r/pull/1'')"
  have ok: "is_ok example_env (str ''ok'')" by (simp add: is_ok_iff strip_examples)
  have run: "status (at_confirm example_env (Some example_proposal)
          [(Some (str ''ok''), None)] (str ''### Relevant snippets'')) = Running"
    by (rule example_env_running) simp
  have "create_pr_calls (trace ?R) =
     [(?f, ?m, butlast [(Some (str ''ok''), None)] @ [(Some (str ''ok''), Some creating_pr)])]"
    by (rule ok_issues [OF run _ _ ok example_proposal_read(3) refl
          example_proposal_read(1) example_proposal_read(2)]) simp_all
  then have mem: "(?f, ?m, ?hh) \<in> set (create_pr_calls (trace ?R))"
    by simp
  have u: "create_pr example_env ?f ?m ?hh = Inr (str ''https://github.com/o/r/pull/1'')"
    by (simp add: example_env_def)
  from create_pr_call_arguments [OF mem]
  have "\<forall>url. create_pr example_env ?f ?m ?hh = Inr url \<longrightarrow>
          status ?R = Returned \<and>
          last_reply (chat_history ?R) = Some (pr_created_at @ url) \<and>
          sublist url (pr_created_at @ url) \<and>
          (\<exists>before. trace ?R = before @
             [Yield ?hh (snippets_text ?R), CreatePR ?f ?m ?hh,
              Yield (butlast ?h @ [(fst (last ?h), Some (pr_created_at @ url))])
                    (snippets_text ?R)])"
    by (rule conjunct2 [THEN conjunct2, THEN conjunct2])
  with u have r: "status ?R = Returned \<and>
      last_reply (chat_history ?R) = Some (pr_created_at @ ?url) \<and>
      (\<exists>before. trace ?R = before @
             [Yield ?hh (snippets_text ?R), CreatePR ?f ?m ?hh,
              Yield (butlast ?h @ [(fst (last ?h), Some (pr_created_at @ ?url))])
                    (snippets_text ?R)])"
    by blast
  then obtain before where "trace ?R = before @
             [Yield ?hh (snippets_text ?R), CreatePR ?f ?m ?hh,
              Yield (butlast ?h @ [(fst (last ?h), Some (pr_created_at @ ?url))])
                    (snippets_text ?R)]"
    by blast
  then have "last (trace ?R) =
      Yield [(Some (str ''ok''), Some (pr_created_at @ ?url))] (snippets_text ?R)"
    by simp
  with mem r show ?thesis by blast
qed

text \<open>
  C4, as the code has it: nothing assigns \<open>proposed_pr\<close> in the confirmation branch. After
  a turn whose create-PR call returned, the proposal is still pending, and the next \<open>ok\<close>
  (in a turn whose search, when triggered, returns) issues the same create-PR call again.
\<close>

theorem proposal_kept_after_pr_created:
  assumes "(f, m, hh) \<in> set (create_pr_calls (trace (handle_message_stream en pr h txt)))"
    and "create_pr en f m hh = Inr url"
  shows "proposed_pr (handle_message_stream en pr h txt) = pr \<and>
         pending (proposed_pr (handle_message_stream en pr h txt)) \<and>
         (\<forall>repo_full_name user_message h2.
            handle_message_submit repo_full_name user_message
              (chat_history (handle_message_stream en pr h txt)) = Inr h2 \<and>
            (lower en (py_strip user_message) = (str ''ok'') \<or>
             lower en (py_strip user_message) = (str ''okay'')) \<and>
            (needs_search (snippets_text (handle_message_stream en pr h txt)) \<longrightarrow>
               (\<exists>ss. search en (Some user_message) 3 = Inr ss)) \<longrightarrow>
            create_pr_calls (trace (handle_message_stream en
                (proposed_pr (handle_message_stream en pr h txt)) h2
                (snippets_text (handle_message_stream en pr h txt)))) =
              [(f, m, butlast h2 @ [(Some user_message, Some creating_pr)])])"
proof -
  from call_issued [OF assms(1)] obtain p m0 where
    run: "status (at_confirm en pr h txt) = Running" and pe: "pending pr" and ne: "h \<noteq> []"
    and m0: "fst (last h) = Some m0" "is_ok en m0"
    and p: "pr = Some p" "file_change_requests p = Inr f" "pull_request_meta p = Inr m"
    and hh: "hh = butlast h @ [(fst (last h), Some creating_pr)]"
    by blast
  note t = turn_created [OF run ne m0 pe p assms(2) [unfolded hh]]
  have kept: "proposed_pr (handle_message_stream en pr h txt) = pr" using t by simp
  have again: "create_pr_calls (trace (handle_message_stream en
                (proposed_pr (handle_message_stream en pr h txt)) h2
                (snippets_text (handle_message_stream en pr h txt)))) =
              [(f, m, butlast h2 @ [(Some user_message, Some creating_pr)])]"
    if s: "handle_message_submit repo_full_name user_message
              (chat_history (handle_message_stream en pr h txt)) = Inr h2"
      and o: "lower en (py_strip user_message) = (str ''ok'') \<or>
             lower en (py_strip user_message) = (str ''okay'')"
      and q: "needs_search (snippets_text (handle_message_stream en pr h txt)) \<longrightarrow>
               (\<exists>ss. search en (Some user_message) 3 = Inr ss)"
    for repo_full_name user_message h2
  proof -
    have h2: "h2 = chat_history (handle_message_stream en pr h txt) @ [(Some user_message, None)]"
      using s by (simp add: handle_message_submit_def split: if_splits)
    have l: "h2 \<noteq> []" "fst (last h2) = Some user_message" by (simp_all add: h2)
    have r2: "status (at_confirm en pr h2 (snippets_text (handle_message_stream en pr h txt)))
                = Running"
      using q l by (auto simp add: at_confirm_running)
    have ok: "is_ok en user_message" using o by (simp add: is_ok_iff)
    show ?thesis unfolding kept
      by (rule ok_issues [OF r2 l ok pe p])
  qed
  have pk: "pending (proposed_pr (handle_message_stream en pr h txt))"
    using kept pe by simp
  from kept pk again show ?thesis by blast
qed

text \<open>
  C4 as stated fails: after a confirmed turn whose create-PR call returned, the proposal is
  still there, and a second \<open>ok\<close> creates the pull request once more.
\<close>

theorem proposal_cleared_counterexample:
  "status (handle_message_stream example_env (Some example_proposal)
      [(Some (str ''ok''), None)] (str ''### Relevant snippets'')) = Returned \<and>
   proposed_pr (handle_message_stream example_env (Some example_proposal)
      [(Some (str ''ok''), None)] (str ''### Relevant snippets'')) = Some example_proposal \<and>
   create_pr_calls (trace (handle_message_stream example_env
      (proposed_pr (handle_message_stream example_env (Some example_proposal)
         [(Some (str ''ok''), None)] (str ''### Relevant snippets'')))
      (chat_history (handle_message_stream example_env (Some example_proposal)
         [(Some (str ''ok''), None)] (str ''### Relevant snippets'')) @ [(Some (str ''ok''), None)])
      (snippets_text (handle_message_stream example_env (Some example_proposal)
         [(Some (str ''ok''), None)] (str ''### Relevant snippets''))))) \<noteq> []"
proof -
  let ?R = "handle_message_stream example_env (Some example_proposal)
      [(Some (str ''ok''), None)] (str ''### Relevant snippets'')"
  have ok: "is_ok example_env (str ''ok'')" by (simp add: is_ok_iff strip_examples)
  have run: "status (at_confirm example_env (Some example_proposal)
          [(Some (str ''ok''), None)] (str ''### Relevant snippets'')) = Running"
    by (rule example_env_running) simp
  have u: "create_pr example_env [(JStr (str ''a.py''), JStr (str ''cover f''))]
      (JStr (str ''Add tests''), JStr (str ''Unit tests for a.py''), JStr (str ''add_tests''))
      (butlast [(Some (str ''ok''), None)] @ [(fst (last [(Some (str ''ok''), None)]), Some creating_pr)])
      = Inr (str ''https://github.com/o/r/pull/1'')"
    by (simp add: example_env_def)
  have t: "status ?R = Returned \<and> proposed_pr ?R = Some example_proposal"
    using turn_created [of example_env "Some example_proposal" "[(Some (str ''ok''), None)]"
        "(str ''### Relevant snippets'')" "(str ''ok'')" example_proposal
        "[(JStr (str ''a.py''), JStr (str ''cover f''))]"
        "(JStr (str ''Add tests''), JStr (str ''Unit tests for a.py''), JStr (str ''add_tests''))"
        "(str ''https://github.com/o/r/pull/1'')"]
      run ok example_proposal_read u
    by simp
  have r2: "status (at_confirm example_env (proposed_pr ?R)
      (chat_history ?R @ [(Some (str ''ok''), None)]) (snippets_text ?R)) = Running"
    by (rule example_env_running) simp
  have p2: "proposed_pr ?R = Some example_proposal" using t by simp
  have "create_pr_calls (trace (handle_message_stream example_env (proposed_pr ?R)
      (chat_history ?R @ [(Some (str ''ok''), None)]) (snippets_text ?R))) =
      [([(JStr (str ''a.py''), JStr (str ''cover f''))],
        (JStr (str ''Add tests''), JStr (str ''Unit tests for a.py''), JStr (str ''add_tests'')),
        butlast (chat_history ?R @ [(Some (str ''ok''), None)]) @ [(Some (str ''ok''), Some creating_pr)])]"
    by (rule ok_issues [OF r2 _ _ ok _ p2 example_proposal_read(1) example_proposal_read(2)])
       (simp_all add: p2 example_proposal_read)
  then show ?thesis using t by simp
qed

theorem proposal_kept_after_pr_created_witness:
  "([(JStr (str ''a.py''), JStr (str ''cover f''))],
    (JStr (str ''Add tests''), JStr (str ''Unit tests for a.py''), JStr (str ''add_tests'')),
    [(Some (str ''ok''), Some creating_pr)])
     \<in> set (create_pr_calls (trace (handle_message_stream example_env (Some example_proposal)
          [(Some (str ''ok''), None)] (str ''### Relevant snippets'')))) \<and>
   create_pr example_env [(JStr (str ''a.py''), JStr (str ''cover f''))]
      (JStr (str ''Add tests''), JStr (str ''Unit tests for a.py''), JStr (str ''add_tests''))
      [(Some (str ''ok''), Some creating_pr)] = Inr (str ''https://github.com/o/r/pull/1'') \<and>
   proposed_pr (handle_message_stream example_env (Some example_proposal)
          [(Some (str ''ok''), None)] (str ''### Relevant snippets'')) = Some example_proposal"
proof -
  let ?R = "handle_message_stream example_env (Some example_proposal)
          [(Some (str ''ok''), None)] (str ''### Relevant snippets'')"
  let ?f = "[(JStr (str ''a.py''), JStr (str ''cover f''))]"
  let ?m = "(JStr (str ''Add tests''), JStr (str ''Unit tests for a.py''), JStr (str ''add_tests''))"
  let ?hh = "[(Some (str ''ok''), Some creating_pr)]"
  have ok: "is_ok example_env (str ''ok'')" by (simp add: is_ok_iff strip_examples)
  have run: "status (at_confirm example_env (Some example_proposal)
          [(Some (str ''ok''), None)] (str ''### Relevant snippets'')) = Running"
    by (rule example_env_running) simp
  have "create_pr_calls (trace ?R) =
     [(?f, ?m, butlast [(Some (str ''ok''), None)] @ [(Some (str ''ok''), Some creating_pr)])]"
    by (rule ok_issues [OF run _ _ ok example_proposal_read(3) refl
          example_proposal_read(1) example_proposal_read(2)]) simp_all
  then have mem: "(?f, ?m, ?hh) \<in> set (create_pr_calls (trace ?R))"
    by simp
  have u: "create_pr example_env ?f ?m ?hh = Inr (str ''https://github.com/o/r/pull/1'')"
    by (simp add: example_env_def)
  from proposal_kept_after_pr_created [OF mem u]
  have "proposed_pr ?R = Some example_proposal" by (rule conjunct1)
  with mem u show ?thesis by blast
qed

lemma add_reply_streaming:
  "streaming g \<Longrightarrow>
   add_reply t g =
     g\<lparr>chat_history := butlast (chat_history g) @
        [(fst (last (chat_history g)), Some (the (snd (last (chat_history g))) @ t))]\<rparr>"
  by (cases "chat_history g"; cases "snd (last (chat_history g))")
     (simp_all add: streaming_def add_reply_def set_reply_nonempty)

lemma content_stmt_streaming:
  assumes s: "streaming g"
  shows "streaming (content_stmt c g)"
proof (cases "chunk_content c")
  case None
  then show ?thesis using s by (simp add: content_stmt_def)
next
  case (Some t)
  show ?thesis
  proof (cases "t = []")
    case True
    then show ?thesis using Some s by (simp add: content_stmt_def)
  next
    case False
    have r: "status g = Running" using s by (simp add: streaming_def)
    have "content_stmt c g = exec yield (add_reply t g)"
      using Some False r by (simp add: content_stmt_def exec_def)
    then show ?thesis using s
      by (simp add: add_reply_streaming exec_def yield_def emit_def streaming_def)
  qed
qed

lemma call_stmt_step:
  assumes s: "streaming g"
  shows "(missing_arguments c \<longrightarrow> status (call_stmt c g) = Raised TypeError) \<and>
         (\<not> missing_arguments c \<longrightarrow> streaming (call_stmt c g))"
proof (cases "chunk_function_call c")
  case None
  then show ?thesis using s by (simp add: call_stmt_def missing_arguments_def)
next
  case (Some fc)
  have r: "status g = Running" and ne: "chat_history g \<noteq> []"
    using s by (simp_all add: streaming_def)
  show ?thesis
  proof (cases "fc = []")
    case True
    then show ?thesis using Some s by (simp add: call_stmt_def missing_arguments_def)
  next
    case False
    show ?thesis
    proof (cases "fc_get fc (str ''arguments'')")
      case None
      then show ?thesis using Some False r
        by (simp add: call_stmt_def missing_arguments_def exec_def update_name_def
            append_arguments_def raise_def)
    next
      case a: (Some a)
      then show ?thesis using Some False r ne
        by (simp add: call_stmt_def missing_arguments_def exec_def update_name_def
            append_arguments_def set_reply_nonempty yield_def emit_def streaming_def)
    qed
  qed
qed

lemma loop_body_step:
  assumes s: "streaming g"
  shows "(missing_arguments c \<longrightarrow> status (loop_body c g) = Raised TypeError) \<and>
         (\<not> missing_arguments c \<longrightarrow> streaming (loop_body c g))"
proof -
  have s1: "streaming (content_stmt c g)" using s by (rule content_stmt_streaming)
  have "loop_body c g = call_stmt c (content_stmt c g)"
    using s s1 by (simp add: loop_body_def exec_def streaming_def)
  then show ?thesis using call_stmt_step [OF s1, of c] by simp
qed

lemma loop_status:
  "streaming g \<Longrightarrow>
   status (for_each loop_body cs g) =
     (if \<exists>c \<in> set cs. missing_arguments c then Raised TypeError else Running)"
proof (induction cs arbitrary: g)
  case Nil
  then show ?case by (simp add: streaming_def)
next
  case (Cons c cs)
  have r: "status g = Running" using Cons.prems by (simp add: streaming_def)
  have e: "for_each loop_body (c # cs) g = for_each loop_body cs (loop_body c g)"
    using r by (simp add: exec_def)
  show ?case
  proof (cases "missing_arguments c")
    case True
    then have "status (loop_body c g) = Raised TypeError"
      using loop_body_step [OF Cons.prems, of c] by simp
    then show ?thesis using True e by (simp add: for_each_stopped)
  next
    case False
    then have "streaming (loop_body c g)"
      using loop_body_step [OF Cons.prems, of c] by simp
    then show ?thesis using Cons.IH False e by simp
  qed
qed

lemma consume_stream_running:
  "status g = Running \<Longrightarrow>
   consume_stream en g =
     (let st = stream_chat en (chat_history g) (snippets g);
          g1 = for_each loop_body (fst st)
                 (g\<lparr>trace := trace g @ [StreamChat (chat_history g) (snippets g)],
                    function_name := Some [], raw_arguments := []\<rparr>)
      in if status g1 = Running then (case snd st of None \<Rightarrow> g1 | Some e \<Rightarrow> raise e g1)
         else g1)"
  by (simp add: consume_stream_def Let_def exec_def emit_def)

lemma keeps_before_stream:
  "keeps proposed_pr (block [
      (\<lambda>g. g\<lparr>chat_history := chat_history g @ [(None, Some (str ''Fetching endpoint...''))]\<rparr>),
      yield, set_reply []])"
  "keeps (\<lambda>g. calls (trace g)) (block [
      (\<lambda>g. g\<lparr>chat_history := chat_history g @ [(None, Some (str ''Fetching endpoint...''))]\<rparr>),
      yield, set_reply []])"
proof -
  have a: "keeps proposed_pr
      (\<lambda>g. g\<lparr>chat_history := chat_history g @ [(None, Some (str ''Fetching endpoint...''))]\<rparr>)"
    by (simp add: keeps_def)
  have b: "keeps (\<lambda>g. calls (trace g))
      (\<lambda>g. g\<lparr>chat_history := chat_history g @ [(None, Some (str ''Fetching endpoint...''))]\<rparr>)"
    by (simp add: keeps_def)
  show "keeps proposed_pr (block [
      (\<lambda>g. g\<lparr>chat_history := chat_history g @ [(None, Some (str ''Fetching endpoint...''))]\<rparr>),
      yield, set_reply []])"
    by (rule keeps_block) (auto intro: a keeps_pr_basic)
  show "keeps (\<lambda>g. calls (trace g)) (block [
      (\<lambda>g. g\<lparr>chat_history := chat_history g @ [(None, Some (str ''Fetching endpoint...''))]\<rparr>),
      yield, set_reply []])"
    by (rule keeps_block) (auto intro: b keeps_calls_basic)
qed

lemma at_stream_proposed_pr: "proposed_pr (at_stream en pr h txt) = pr"
proof -
  have "proposed_pr (at_stream en pr h txt) =
        proposed_pr (exec (if_stmt (confirmed en) (confirm_block en)) (at_confirm en pr h txt))"
    unfolding at_stream_def using keeps_exec [OF keeps_before_stream(1)]
    by (simp add: keeps_def)
  also have "\<dots> = proposed_pr (at_confirm en pr h txt)"
    using keeps_exec [OF keeps_confirm(3), of en] by (simp add: keeps_def)
  finally show ?thesis using at_confirm_facts [of en "pr" h "txt"] by simp
qed

lemma at_stream_no_stream_calls: "stream_chat_calls (trace (at_stream en pr h txt)) = []"
proof -
  have "calls (trace (at_stream en pr h txt)) =
        calls (trace (exec (if_stmt (confirmed en) (confirm_block en)) (at_confirm en pr h txt)))"
    unfolding at_stream_def using keeps_exec [OF keeps_before_stream(2)]
    by (simp add: keeps_def)
  then have "stream_chat_calls (calls (trace (at_stream en pr h txt))) =
        stream_chat_calls (calls (trace (exec (if_stmt (confirmed en) (confirm_block en))
          (at_confirm en pr h txt))))"
    by simp
  then have "stream_chat_calls (trace (at_stream en pr h txt)) =
        stream_chat_calls (trace (exec (if_stmt (confirmed en) (confirm_block en))
          (at_confirm en pr h txt)))"
    by (simp only: stream_chat_calls_of_calls)
  also have "\<dots> = stream_chat_calls (trace (at_confirm en pr h txt))"
    using keeps_exec [OF keeps_confirm(2), of en] by (simp add: keeps_def)
  finally show ?thesis using at_confirm_facts [of en "pr" h "txt"] by simp
qed

lemma at_stream_streaming:
  assumes "status (at_stream en pr h txt) = Running"
  shows "streaming (at_stream en pr h txt) \<and>
         last (chat_history (at_stream en pr h txt)) = (None, Some [])"
proof -
  let ?g = "exec (if_stmt (confirmed en) (confirm_block en)) (at_confirm en pr h txt)"
  have r: "status ?g = Running"
    using assms unfolding at_stream_def by (cases "status ?g = Running") (simp_all add: exec_def)
  show ?thesis unfolding at_stream_def at_stream_running [OF r] using r
    by (simp add: streaming_def)
qed

lemma stream_opened:
  "stream_chat_calls (trace (handle_message_stream en pr h txt)) =
     (if status (at_stream en pr h txt) = Running
      then [(chat_history (at_stream en pr h txt), snippets (at_stream en pr h txt))] else [])"
proof (cases "status (at_stream en pr h txt) = Running")
  case False
  then have "handle_message_stream en pr h txt = at_stream en pr h txt"
    by (simp add: turn_split stream_end_def exec_def)
  then show ?thesis using False by (simp add: at_stream_no_stream_calls)
next
  case True
  have "calls (trace (handle_message_stream en pr h txt)) =
        calls (trace (consume_stream en (at_stream en pr h txt)))"
    unfolding turn_split stream_end_def exec_running [OF True]
    using keeps_exec [OF keeps_finish_call_calls, of en] by (simp add: keeps_def)
  also have "\<dots> = calls (trace (at_stream en pr h txt)) @
      [StreamChat (chat_history (at_stream en pr h txt)) (snippets (at_stream en pr h txt))]"
    by (rule consume_stream_calls [OF True])
  finally have "stream_chat_calls (calls (trace (handle_message_stream en pr h txt))) =
      stream_chat_calls (calls (trace (at_stream en pr h txt)) @
      [StreamChat (chat_history (at_stream en pr h txt)) (snippets (at_stream en pr h txt))])"
    by simp
  then have "stream_chat_calls (trace (handle_message_stream en pr h txt)) =
      stream_chat_calls (trace (at_stream en pr h txt)) @
        [(chat_history (at_stream en pr h txt), snippets (at_stream en pr h txt))]"
    unfolding stream_chat_calls_of_calls
    by (simp add: stream_chat_calls_def stream_chat_calls_of_calls [unfolded stream_chat_calls_def])
  then show ?thesis using True by (simp add: at_stream_no_stream_calls)
qed

lemma stream_end_status:
  assumes "status (at_stream en pr h txt) = Running"
  shows "status (stream_end en pr h txt) =
    (if \<exists>c \<in> set (fst (stream_chat en (chat_history (at_stream en pr h txt))
                              (snippets (at_stream en pr h txt)))). missing_arguments c
     then Raised TypeError
     else (case snd (stream_chat en (chat_history (at_stream en pr h txt))
                       (snippets (at_stream en pr h txt))) of
             None \<Rightarrow> Running | Some e \<Rightarrow> Raised e))"
proof -
  let ?g = "at_stream en pr h txt"
  let ?s = "?g\<lparr>trace := trace ?g @ [StreamChat (chat_history ?g) (snippets ?g)],
               function_name := Some [], raw_arguments := []\<rparr>"
  have "streaming ?g" using at_stream_streaming [OF assms] by simp
  then have s0: "streaming ?s" by (simp add: streaming_def)
  note l = loop_status [OF s0, of "fst (stream_chat en (chat_history ?g) (snippets ?g))"]
  show ?thesis
    unfolding stream_end_def exec_running [OF assms] consume_stream_running [OF assms] Let_def
    using l by (simp add: raise_def split: option.splits)
qed

lemma named_call_missing_arguments:
  "chunk_function_call c = Some fc \<Longrightarrow> (str ''name'') \<in> fst ` set fc \<Longrightarrow>
   fc_get fc (str ''arguments'') = None \<Longrightarrow> missing_arguments c"
  by (auto simp add: missing_arguments_def)

text \<open>
  C9: once the stream is opened, reading it raises \<open>TypeError\<close>, and so ends the turn,
  if some fragment has a function call with a \<open>name\<close> key and no arguments, or any function
  call that is not empty and gives no arguments; if every function call that is not empty
  gives its arguments, reading ends as the stream itself ends.
\<close>

theorem stream_needs_arguments:
  assumes "(hh, sns) \<in> set (stream_chat_calls (trace (handle_message_stream en pr h txt)))"
  shows "((\<exists>c \<in> set (fst (stream_chat en hh sns)).
             \<exists>fc. chunk_function_call c = Some fc \<and> (str ''name'') \<in> fst ` set fc \<and>
                  fc_get fc (str ''arguments'') = None) \<longrightarrow>
            status (handle_message_stream en pr h txt) = Raised TypeError) \<and>
         ((\<exists>c \<in> set (fst (stream_chat en hh sns)). missing_arguments c) \<longrightarrow>
            status (handle_message_stream en pr h txt) = Raised TypeError) \<and>
         ((\<forall>c \<in> set (fst (stream_chat en hh sns)). \<not> missing_arguments c) \<longrightarrow>
            status (stream_end en pr h txt) =
              (case snd (stream_chat en hh sns) of None \<Rightarrow> Running | Some e \<Rightarrow> Raised e))"
proof -
  have run: "status (at_stream en pr h txt) = Running"
    and hh: "hh = chat_history (at_stream en pr h txt)"
    and sns: "sns = snippets (at_stream en pr h txt)"
    using assms unfolding stream_opened by (auto split: if_splits)
  note s = stream_end_status [OF run, folded hh sns]
  have a: "status (handle_message_stream en pr h txt) = Raised TypeError"
    if "\<exists>c \<in> set (fst (stream_chat en hh sns)). missing_arguments c"
  proof -
    have "status (stream_end en pr h txt) = Raised TypeError" using s that by simp
    then show ?thesis by (simp add: turn_split exec_def)
  qed
  have n: "status (handle_message_stream en pr h txt) = Raised TypeError"
    if "\<exists>c \<in> set (fst (stream_chat en hh sns)).
             \<exists>fc. chunk_function_call c = Some fc \<and> (str ''name'') \<in> fst ` set fc \<and>
                  fc_get fc (str ''arguments'') = None"
  proof -
    from that have "\<exists>c \<in> set (fst (stream_chat en hh sns)). missing_arguments c"
      using named_call_missing_arguments by blast
    then show ?thesis by (rule a)
  qed
  have b: "status (stream_end en pr h txt) =
              (case snd (stream_chat en hh sns) of None \<Rightarrow> Running | Some e \<Rightarrow> Raised e)"
    if "\<forall>c \<in> set (fst (stream_chat en hh sns)). \<not> missing_arguments c"
    using s that by simp
  from n a b show ?thesis by blast
qed

lemma example_block_no_search: "\<not> needs_search example_block"
  by (simp add: needs_search_iff example_block_def py_strip_def py_isspace_def newline_def
      str_def)

lemma at_stream_plain:
  assumes "\<not> needs_search txt" "\<not> pending pr"
  shows "at_stream en pr h txt =
     (init_frame pr h txt)\<lparr>chat_history := h @ [(None, Some [])],
        trace := [Yield h txt, Yield (h @ [(None, Some (str ''Fetching endpoint...''))]) txt]\<rparr>"
proof -
  let ?g = "(init_frame pr h txt)\<lparr>trace := [Yield h txt]\<rparr>"
  have c: "confirmed en ?g = Inr False"
    using assms(2) by (simp add: confirmed_False init_frame_def)
  have r: "status ?g = Running" by (simp add: init_frame_def)
  show ?thesis
    unfolding at_stream_def at_confirm_no_search [OF assms(1)]
      exec_running [OF r] confirm_skip [OF c]
    by (simp add: init_frame_def exec_def yield_def emit_def set_reply_nonempty)
qed

theorem stream_needs_arguments_witness:
  "([(Some (str ''hi''), None), (None, Some [])], [])
     \<in> set (stream_chat_calls (trace (handle_message_stream
          (stream_env [call_without_arguments]) None [(Some (str ''hi''), None)] example_block))) \<and>
   missing_arguments call_without_arguments \<and>
   status (handle_message_stream (stream_env [call_without_arguments]) None
      [(Some (str ''hi''), None)] example_block) = Raised TypeError"
proof -
  let ?en = "stream_env [call_without_arguments]"
  let ?R = "handle_message_stream ?en None [(Some (str ''hi''), None)] example_block"
  have np: "\<not> pending None" by (simp add: pending_def)
  note a = at_stream_plain [OF example_block_no_search np, of ?en "[(Some (str ''hi''), None)]"]
  have mem: "([(Some (str ''hi''), None), (None, Some [])], []) \<in> set (stream_chat_calls (trace ?R))"
    unfolding stream_opened a by (simp add: init_frame_def)
  have m: "missing_arguments call_without_arguments"
    by (simp add: missing_arguments_def call_without_arguments_def fc_get_def)
  have "\<exists>c \<in> set (fst (stream_chat ?en [(Some (str ''hi''), None), (None, Some [])] [])).
          missing_arguments c"
    using m by (simp add: stream_env_def)
  with stream_needs_arguments [OF mem] have "status ?R = Raised TypeError" by blast
  with mem m show ?thesis by blast
qed

lemma loop_body_content:
  assumes "status g = Running" "chat_history g = H @ [(u, Some acc)]"
  shows "loop_body (content_chunk t) g =
     (if t = [] then g
      else g\<lparr>chat_history := H @ [(u, Some (acc @ t))],
             trace := trace g @ [Yield (H @ [(u, Some (acc @ t))]) (snippets_text g)]\<rparr>)"
proof -
  have s: "streaming g" using assms by (simp add: streaming_def)
  show ?thesis using assms
    by (simp add: loop_body_def content_stmt_def call_stmt_def content_chunk_def exec_def
        add_reply_streaming [OF s] yield_def emit_def)
qed

lemma loop_content:
  "status g = Running \<Longrightarrow> chat_history g = H @ [(u, Some acc)] \<Longrightarrow>
   for_each loop_body (map content_chunk ts) g =
     g\<lparr>chat_history := H @ [(u, Some (acc @ concat ts))],
       trace := trace g @ map (\<lambda>a. Yield (H @ [(u, Some a)]) (snippets_text g))
                            (running_texts acc ts)\<rparr>"
proof (induction ts arbitrary: g acc)
  case Nil
  have "g\<lparr>chat_history := chat_history g, trace := trace g\<rparr> = g" by simp
  then show ?case using Nil by simp
next
  case (Cons t ts)
  show ?case
  proof (cases "t = []")
    case True
    then show ?thesis using Cons
      by (simp add: exec_def loop_body_content [OF Cons.prems])
  next
    case False
    let ?g = "g\<lparr>chat_history := H @ [(u, Some (acc @ t))],
             trace := trace g @ [Yield (H @ [(u, Some (acc @ t))]) (snippets_text g)]\<rparr>"
    have r: "status ?g = Running" using Cons.prems by simp
    have c: "chat_history ?g = H @ [(u, Some (acc @ t))]" by simp
    show ?thesis using False Cons.prems(1) Cons.IH [OF r c]
      by (simp add: exec_def loop_body_content [OF Cons.prems])
  qed
qed

lemma running_texts_prefix:
  "sorted_wrt prefix (running_texts acc ts) \<and>
   (\<forall>a \<in> set (running_texts acc ts). prefix acc a \<and> prefix a (acc @ concat ts))"
proof (induction ts arbitrary: acc)
  case Nil
  then show ?case by simp
next
  case (Cons t ts)
  show ?case
  proof (cases "t = []")
    case True
    then show ?thesis using Cons [of acc] by simp
  next
    case False
    have "\<forall>a \<in> set (running_texts (acc @ t) ts). prefix acc a"
      using Cons [of "acc @ t"] by (meson append_prefixD)
    then show ?thesis using False Cons [of "acc @ t"] by simp
  qed
qed

lemma yielded_replies_append:
  "yielded_replies (xs @ ys) = yielded_replies xs @ yielded_replies ys"
  by (simp add: yielded_replies_def)

lemma yielded_replies_renders:
  "yielded_replies (map (\<lambda>a. Yield (H @ [(u, Some a)]) t) xs) = map Some xs"
  by (induction xs) (simp_all add: yielded_replies_def last_reply_alt)

lemma finish_call_skip: "\<not> name_truthy (function_name g) \<Longrightarrow> finish_call en g = g"
  by (simp add: finish_call_def if_stmt_def)

lemma content_stream_turn:
  assumes run: "status (at_stream en pr h txt) = Running"
    and st: "stream_chat en (chat_history (at_stream en pr h txt))
               (snippets (at_stream en pr h txt)) = (map content_chunk ts, None)"
  shows "status (handle_message_stream en pr h txt) = Running \<and>
         chat_history (handle_message_stream en pr h txt) =
           butlast (chat_history (at_stream en pr h txt)) @ [(None, Some (concat ts))] \<and>
         trace (handle_message_stream en pr h txt) =
           trace (at_stream en pr h txt) @
           StreamChat (chat_history (at_stream en pr h txt)) (snippets (at_stream en pr h txt)) #
           map (\<lambda>a. Yield (butlast (chat_history (at_stream en pr h txt)) @ [(None, Some a)])
                        (snippets_text (at_stream en pr h txt)))
               (running_texts [] ts)"
proof -
  let ?A = "at_stream en pr h txt"
  let ?H = "butlast (chat_history ?A)"
  let ?s = "?A\<lparr>trace := trace ?A @ [StreamChat (chat_history ?A) (snippets ?A)],
               function_name := Some [], raw_arguments := []\<rparr>"
  let ?L = "for_each loop_body (map content_chunk ts) ?s"
  have sa: "streaming ?A" and la: "last (chat_history ?A) = (None, Some [])"
    using at_stream_streaming [OF run] by simp_all
  have ne: "chat_history ?A \<noteq> []" using sa by (simp add: streaming_def)
  have ch: "chat_history ?A = ?H @ [(None, Some [])]"
    using ne la by (metis append_butlast_last_id)
  have rs: "status ?s = Running" using run by simp
  have cs: "chat_history ?s = ?H @ [(None, Some [])]" using ch by simp
  note l = loop_content [OF rs cs, of ts]
  have ls: "status ?L = Running" unfolding l using run by simp
  have lf: "function_name ?L = Some []" unfolding l by simp
  have "stream_end en pr h txt = ?L"
    unfolding stream_end_def exec_running [OF run] consume_stream_running [OF run] Let_def st
    using ls by simp
  then have "handle_message_stream en pr h txt = ?L"
    unfolding turn_split using ls lf
    by (simp add: exec_def finish_call_skip name_truthy_def)
  then show ?thesis unfolding l using run by simp
qed

text \<open>
  C7, as the code has it: when the stream is fragments of text only, each fragment that is
  not empty is appended to the assistant text and the text is yielded; an empty fragment
  yields nothing. The texts yielded grow by prefix, each is a prefix of the final text, and
  the final text is the concatenation of all fragments in order.
\<close>

theorem content_fragments_accumulate:
  assumes "(hh, sns) \<in> set (stream_chat_calls (trace (handle_message_stream en pr h txt)))"
    and "stream_chat en hh sns = (map content_chunk ts, None)"
  shows "status (handle_message_stream en pr h txt) = Running \<and>
         last_reply (chat_history (handle_message_stream en pr h txt)) = Some (concat ts) \<and>
         yielded_replies (trace (handle_message_stream en pr h txt)) =
           yielded_replies (trace (at_stream en pr h txt)) @ map Some (running_texts [] ts) \<and>
         sorted_wrt prefix (running_texts [] ts) \<and>
         (\<forall>a \<in> set (running_texts [] ts). prefix a (concat ts))"
proof -
  have run: "status (at_stream en pr h txt) = Running"
    and hh: "hh = chat_history (at_stream en pr h txt)"
    and sns: "sns = snippets (at_stream en pr h txt)"
    using assms(1) unfolding stream_opened by (auto split: if_splits)
  note t = content_stream_turn [OF run assms(2) [unfolded hh sns]]
  have y: "yielded_replies (trace (handle_message_stream en pr h txt)) =
           yielded_replies (trace (at_stream en pr h txt)) @ map Some (running_texts [] ts)"
  proof -
    have c: "yielded_replies (StreamChat a b # xs) = yielded_replies xs" for a b xs
      by (simp add: yielded_replies_def)
    have "trace (handle_message_stream en pr h txt) =
           trace (at_stream en pr h txt) @
           StreamChat (chat_history (at_stream en pr h txt)) (snippets (at_stream en pr h txt)) #
           map (\<lambda>a. Yield (butlast (chat_history (at_stream en pr h txt)) @ [(None, Some a)])
                        (snippets_text (at_stream en pr h txt)))
               (running_texts [] ts)"
      using t by blast
    then show ?thesis
      by (simp only: yielded_replies_append c yielded_replies_renders)
  qed
  have l: "last_reply (chat_history (handle_message_stream en pr h txt)) = Some (concat ts)"
    using t by (simp add: last_reply_alt)
  from t y l running_texts_prefix [of "[]" ts] show ?thesis by simp
qed

lemma plain_stream_opened:
  "stream_chat_calls (trace (handle_message_stream en None [(Some (str ''hi''), None)] example_block)) =
     [([(Some (str ''hi''), None), (None, Some [])], [])]"
proof -
  have np: "\<not> pending None" by (simp add: pending_def)
  note a = at_stream_plain [OF example_block_no_search np, of en "[(Some (str ''hi''), None)]"]
  show ?thesis unfolding stream_opened a by (simp add: init_frame_def)
qed

lemma plain_at_stream:
  "status (at_stream en None [(Some (str ''hi''), None)] example_block) = Running"
  "chat_history (at_stream en None [(Some (str ''hi''), None)] example_block) =
     [(Some (str ''hi''), None), (None, Some [])]"
  "snippets (at_stream en None [(Some (str ''hi''), None)] example_block) = []"
  "yielded_replies (trace (at_stream en None [(Some (str ''hi''), None)] example_block)) =
     [None, Some (str ''Fetching endpoint...'')]"
  "proposed_pr (at_stream en None [(Some (str ''hi''), None)] example_block) = None"
proof -
  have np: "\<not> pending None" by (simp add: pending_def)
  note a = at_stream_plain [OF example_block_no_search np, of en "[(Some (str ''hi''), None)]"]
  show "status (at_stream en None [(Some (str ''hi''), None)] example_block) = Running"
    "chat_history (at_stream en None [(Some (str ''hi''), None)] example_block) =
       [(Some (str ''hi''), None), (None, Some [])]"
    "snippets (at_stream en None [(Some (str ''hi''), None)] example_block) = []"
    "yielded_replies (trace (at_stream en None [(Some (str ''hi''), None)] example_block)) =
       [None, Some (str ''Fetching endpoint...'')]"
    "proposed_pr (at_stream en None [(Some (str ''hi''), None)] example_block) = None"
    unfolding a by (simp_all add: init_frame_def yielded_replies_def last_reply_alt)
qed

theorem content_fragments_accumulate_witness:
  "([(Some (str ''hi''), None), (None, Some [])], [])
     \<in> set (stream_chat_calls (trace (handle_message_stream
          (stream_env (map content_chunk [(str ''Hel''), (str ''lo'')])) None
          [(Some (str ''hi''), None)] example_block))) \<and>
   stream_chat (stream_env (map content_chunk [(str ''Hel''), (str ''lo'')]))
     [(Some (str ''hi''), None), (None, Some [])] [] = (map content_chunk [(str ''Hel''), (str ''lo'')], None) \<and>
   last_reply (chat_history (handle_message_stream
          (stream_env (map content_chunk [(str ''Hel''), (str ''lo'')])) None
          [(Some (str ''hi''), None)] example_block)) = Some (str ''Hello'') \<and>
   yielded_replies (trace (handle_message_stream
          (stream_env (map content_chunk [(str ''Hel''), (str ''lo'')])) None
          [(Some (str ''hi''), None)] example_block)) =
     [None, Some (str ''Fetching endpoint...''), Some (str ''Hel''), Some (str ''Hello'')]"
proof -
  let ?en = "stream_env (map content_chunk [(str ''Hel''), (str ''lo'')])"
  let ?R = "handle_message_stream ?en None [(Some (str ''hi''), None)] example_block"
  have mem: "([(Some (str ''hi''), None), (None, Some [])], []) \<in> set (stream_chat_calls (trace ?R))"
    by (simp add: plain_stream_opened)
  have st: "stream_chat ?en [(Some (str ''hi''), None), (None, Some [])] [] =
      (map content_chunk [(str ''Hel''), (str ''lo'')], None)"
    by (simp add: stream_env_def)
  from content_fragments_accumulate [OF mem st]
  have "last_reply (chat_history ?R) = Some (concat [(str ''Hel''), (str ''lo'')])"
    and "yielded_replies (trace ?R) =
      yielded_replies (trace (at_stream ?en None [(Some (str ''hi''), None)] example_block)) @
      map Some (running_texts [] [(str ''Hel''), (str ''lo'')])"
    by blast+
  then have "last_reply (chat_history ?R) = Some (str ''Hello'')"
    and "yielded_replies (trace ?R) =
      [None, Some (str ''Fetching endpoint...''), Some (str ''Hel''), Some (str ''Hello'')]"
    by (simp_all add: plain_at_stream str_append)
  with mem st show ?thesis by blast
qed

text \<open>
  C7 as stated fails for an empty fragment: of the three fragments \<open>Hel\<close>, the empty
  string and \<open>lo\<close>, only two are followed by a yield.
\<close>

theorem render_after_every_fragment_counterexample:
  "fst (stream_chat (stream_env (map content_chunk [(str ''Hel''), [], (str ''lo'')]))
     [(Some (str ''hi''), None), (None, Some [])] []) =
     [content_chunk (str ''Hel''), content_chunk [], content_chunk (str ''lo'')] \<and>
   stream_chat_calls (trace (handle_message_stream
          (stream_env (map content_chunk [(str ''Hel''), [], (str ''lo'')])) None
          [(Some (str ''hi''), None)] example_block)) =
     [([(Some (str ''hi''), None), (None, Some [])], [])] \<and>
   yielded_replies (trace (handle_message_stream
          (stream_env (map content_chunk [(str ''Hel''), [], (str ''lo'')])) None
          [(Some (str ''hi''), None)] example_block)) =
     [None, Some (str ''Fetching endpoint...''), Some (str ''Hel''), Some (str ''Hello'')]"
proof -
  let ?en = "stream_env (map content_chunk [(str ''Hel''), [], (str ''lo'')])"
  let ?R = "handle_message_stream ?en None [(Some (str ''hi''), None)] example_block"
  have st: "stream_chat ?en
      (chat_history (at_stream ?en None [(Some (str ''hi''), None)] example_block))
      (snippets (at_stream ?en None [(Some (str ''hi''), None)] example_block)) =
      (map content_chunk [(str ''Hel''), [], (str ''lo'')], None)"
    by (simp add: stream_env_def)
  have c: "yielded_replies (StreamChat a b # xs) = yielded_replies xs" for a b xs
    by (simp add: yielded_replies_def)
  from content_stream_turn [OF plain_at_stream(1) st]
  have "trace ?R =
      trace (at_stream ?en None [(Some (str ''hi''), None)] example_block) @
      StreamChat (chat_history (at_stream ?en None [(Some (str ''hi''), None)] example_block))
        (snippets (at_stream ?en None [(Some (str ''hi''), None)] example_block)) #
      map (\<lambda>a. Yield (butlast (chat_history (at_stream ?en None [(Some (str ''hi''), None)]
                  example_block)) @ [(None, Some a)])
             (snippets_text (at_stream ?en None [(Some (str ''hi''), None)] example_block)))
        (running_texts [] [(str ''Hel''), [], (str ''lo'')])"
    by blast
  then have "yielded_replies (trace ?R) =
      yielded_replies (trace (at_stream ?en None [(Some (str ''hi''), None)] example_block)) @
      map Some (running_texts [] [(str ''Hel''), [], (str ''lo'')])"
    by (simp only: yielded_replies_append c yielded_replies_renders)
  then have "yielded_replies (trace ?R) =
      [None, Some (str ''Fetching endpoint...''), Some (str ''Hel''), Some (str ''Hello'')]"
    by (simp add: plain_at_stream str_append)
  then show ?thesis by (simp add: plain_stream_opened stream_env_def)
qed

lemma call_chunk_get:
  "chunk_content (call_chunk n a) = None"
  "\<exists>fc. chunk_function_call (call_chunk n a) = Some fc \<and> fc \<noteq> [] \<and>
        fc_get fc (str ''name'') = n \<and> fc_get fc (str ''arguments'') = Some a"
  by (cases n; simp add: call_chunk_def fc_get_def)+

lemma call_stmt_run:
  assumes "status g = Running" "chat_history g \<noteq> []" "chunk_function_call c = Some fc"
    "fc \<noteq> []" "fc_get fc (str ''arguments'') = Some a"
  shows "call_stmt c g =
     g\<lparr>function_name := (if name_truthy (function_name g) then function_name g
                           else fc_get fc (str ''name'')),
       raw_arguments := raw_arguments g @ a,
       chat_history := butlast (chat_history g) @
         [(fst (last (chat_history g)),
           Some (render_call (if name_truthy (function_name g) then function_name g
                              else fc_get fc (str ''name''))
                   (raw_arguments g @ a)))],
       trace := trace g @
         [Yield (butlast (chat_history g) @
            [(fst (last (chat_history g)),
              Some (render_call (if name_truthy (function_name g) then function_name g
                                 else fc_get fc (str ''name''))
                      (raw_arguments g @ a)))]) (snippets_text g)]\<rparr>"
  using assms
  by (simp add: call_stmt_def exec_def update_name_def append_arguments_def
      set_reply_nonempty yield_def emit_def)

lemma loop_body_call:
  assumes "status g = Running" "chat_history g \<noteq> []"
  shows "loop_body (call_chunk n a) g =
     g\<lparr>function_name := (if name_truthy (function_name g) then function_name g else n),
       raw_arguments := raw_arguments g @ a,
       chat_history := butlast (chat_history g) @
         [(fst (last (chat_history g)),
           Some (render_call (if name_truthy (function_name g) then function_name g else n)
                   (raw_arguments g @ a)))],
       trace := trace g @
         [Yield (butlast (chat_history g) @
            [(fst (last (chat_history g)),
              Some (render_call (if name_truthy (function_name g) then function_name g else n)
                      (raw_arguments g @ a)))]) (snippets_text g)]\<rparr>"
proof -
  from call_chunk_get(2) [of n a] obtain fc where
    fc: "chunk_function_call (call_chunk n a) = Some fc" "fc \<noteq> []"
        "fc_get fc (str ''name'') = n" "fc_get fc (str ''arguments'') = Some a"
    by blast
  have "loop_body (call_chunk n a) g = call_stmt (call_chunk n a) g"
    using assms(1) by (simp add: loop_body_def content_stmt_def call_chunk_get(1) exec_def)
  then show ?thesis
    unfolding call_stmt_run [OF assms fc(1) fc(2) fc(4)] fc(3) .
qed

lemma loop_calls:
  "status g = Running \<Longrightarrow> chat_history g \<noteq> [] \<Longrightarrow>
   status (for_each loop_body (map (\<lambda>na. call_chunk (fst na) (snd na)) nas) g) = Running \<and>
   function_name (for_each loop_body (map (\<lambda>na. call_chunk (fst na) (snd na)) nas) g) =
     foldl (\<lambda>fn na. if name_truthy fn then fn else fst na) (function_name g) nas \<and>
   raw_arguments (for_each loop_body (map (\<lambda>na. call_chunk (fst na) (snd na)) nas) g) =
     raw_arguments g @ concat (map snd nas)"
proof (induction nas arbitrary: g)
  case Nil
  then show ?case by simp
next
  case (Cons na nas)
  let ?g = "loop_body (call_chunk (fst na) (snd na)) g"
  have r: "status ?g = Running" and c: "chat_history ?g \<noteq> []"
    unfolding loop_body_call [OF Cons.prems] using Cons.prems by simp_all
  have f: "function_name ?g = (if name_truthy (function_name g) then function_name g else fst na)"
    and a: "raw_arguments ?g = raw_arguments g @ snd na"
    unfolding loop_body_call [OF Cons.prems] by simp_all
  show ?case using Cons.IH [OF r c] Cons.prems(1) f a by (simp add: exec_def)
qed

lemma keeps_consume_pr: "proposed_pr (consume_stream en g) = proposed_pr g"
proof -
  have e: "keeps proposed_pr (\<lambda>g'. case x of None \<Rightarrow> g' | Some e \<Rightarrow> raise e g')"
    for x :: "error option"
    using keeps_pr_basic(2) by (simp add: keeps_def split: option.splits)
  have i: "keeps proposed_pr (\<lambda>g. g\<lparr>function_name := Some [], raw_arguments := []\<rparr>)"
    by (simp add: keeps_def)
  have "keeps proposed_pr
          (block [emit (StreamChat (chat_history g) (snippets g)),
                  (\<lambda>g. g\<lparr>function_name := Some [], raw_arguments := []\<rparr>),
                  for_each loop_body (fst (stream_chat en (chat_history g) (snippets g))),
                  (\<lambda>g'. case snd (stream_chat en (chat_history g) (snippets g)) of
                          None \<Rightarrow> g' | Some e \<Rightarrow> raise e g')])"
    by (rule keeps_block) (auto intro: e i keeps_loop keeps_pr_basic)
  then show ?thesis unfolding consume_stream_def Let_def keeps_def by blast
qed

lemma stream_end_proposed_pr: "proposed_pr (stream_end en pr h txt) = pr"
  by (simp add: stream_end_def exec_def keeps_consume_pr at_stream_proposed_pr)

lemma finish_call_create_pr:
  "status g = Running \<Longrightarrow> function_name g = Some (str ''create_pr'') \<Longrightarrow>
   json_loads en (raw_arguments g) = Inr a \<Longrightarrow>
   finish_call en g = create_pr_block en (g\<lparr>arguments := a\<rparr>)"
  by (simp add: finish_call_def if_stmt_def name_truthy_def load_arguments_def exec_def)

lemma create_pr_block_missing:
  "status g = Running \<Longrightarrow> arguments g = JObj kvs \<Longrightarrow>
   (str ''title'') \<notin> fst ` set kvs \<or> (str ''summary'') \<notin> fst ` set kvs \<or> (str ''plan'') \<notin> fst ` set kvs \<Longrightarrow>
   create_pr_block en g = raise AssertionError g"
  by (auto simp add: create_pr_block_def exec_def assert_key_def raise_def)

text \<open>
  C5: when the stream has been read to its end with the function name \<open>create_pr\<close> and
  its arguments parse to an object that lacks \<open>title\<close>, \<open>summary\<close> or \<open>plan\<close>, the turn
  ends with \<open>AssertionError\<close> and \<open>proposed_pr\<close> is what it was before the turn.
\<close>

theorem missing_key_fails_and_keeps_proposal:
  assumes "status (stream_end en pr h txt) = Running"
    and "function_name (stream_end en pr h txt) = Some (str ''create_pr'')"
    and "json_loads en (raw_arguments (stream_end en pr h txt)) = Inr (JObj kvs)"
    and "(str ''title'') \<notin> fst ` set kvs \<or> (str ''summary'') \<notin> fst ` set kvs \<or>
         (str ''plan'') \<notin> fst ` set kvs"
  shows "status (handle_message_stream en pr h txt) = Raised AssertionError \<and>
         proposed_pr (handle_message_stream en pr h txt) = pr"
proof -
  let ?g = "(stream_end en pr h txt)\<lparr>arguments := JObj kvs\<rparr>"
  have r: "status ?g = Running" using assms(1) by simp
  have "handle_message_stream en pr h txt = create_pr_block en ?g"
    unfolding turn_split exec_running [OF assms(1)]
    by (rule finish_call_create_pr [OF assms(1) assms(2) assms(3)])
  also have "\<dots> = raise AssertionError ?g"
    by (rule create_pr_block_missing [OF r _ assms(4)]) simp
  finally show ?thesis by (simp add: raise_def stream_end_proposed_pr)
qed

lemma stream_end_calls:
  assumes run: "status (at_stream en pr h txt) = Running"
    and st: "stream_chat en (chat_history (at_stream en pr h txt))
               (snippets (at_stream en pr h txt)) =
             (map (\<lambda>na. call_chunk (fst na) (snd na)) nas, None)"
  shows "status (stream_end en pr h txt) = Running \<and>
         function_name (stream_end en pr h txt) =
           foldl (\<lambda>fn na. if name_truthy fn then fn else fst na) (Some []) nas \<and>
         raw_arguments (stream_end en pr h txt) = concat (map snd nas)"
proof -
  let ?A = "at_stream en pr h txt"
  let ?s = "?A\<lparr>trace := trace ?A @ [StreamChat (chat_history ?A) (snippets ?A)],
               function_name := Some [], raw_arguments := []\<rparr>"
  let ?L = "for_each loop_body (map (\<lambda>na. call_chunk (fst na) (snd na)) nas) ?s"
  have sa: "streaming ?A" using at_stream_streaming [OF run] by simp
  have rs: "status ?s = Running" using run by simp
  have cs: "chat_history ?s \<noteq> []" using sa by (simp add: streaming_def)
  note l = loop_calls [OF rs cs, of nas]
  have "stream_end en pr h txt = ?L"
    unfolding stream_end_def exec_running [OF run] consume_stream_running [OF run] Let_def st
    using l by simp
  then show ?thesis using l by simp
qed

lemma plain_proposal_stream_end:
  "status (stream_end (proposal_env nas kvs) None [(Some (str ''hi''), None)] example_block) = Running"
  "function_name (stream_end (proposal_env nas kvs) None [(Some (str ''hi''), None)] example_block) =
     foldl (\<lambda>fn na. if name_truthy fn then fn else fst na) (Some []) nas"
  "json_loads (proposal_env nas kvs)
     (raw_arguments (stream_end (proposal_env nas kvs) None [(Some (str ''hi''), None)] example_block))
     = Inr (JObj kvs)"
proof -
  let ?en = "proposal_env nas kvs"
  have st: "stream_chat ?en
      (chat_history (at_stream ?en None [(Some (str ''hi''), None)] example_block))
      (snippets (at_stream ?en None [(Some (str ''hi''), None)] example_block)) =
      (map (\<lambda>na. call_chunk (fst na) (snd na)) nas, None)"
    by (simp add: proposal_env_def stream_env_def)
  note s = stream_end_calls [OF plain_at_stream(1) st]
  show "status (stream_end ?en None [(Some (str ''hi''), None)] example_block) = Running"
    "function_name (stream_end ?en None [(Some (str ''hi''), None)] example_block) =
       foldl (\<lambda>fn na. if name_truthy fn then fn else fst na) (Some []) nas"
    using s by simp_all
  show "json_loads ?en
     (raw_arguments (stream_end ?en None [(Some (str ''hi''), None)] example_block)) = Inr (JObj kvs)"
    using s by (simp add: proposal_env_def)
qed

theorem missing_key_fails_and_keeps_proposal_witness:
  "status (stream_end (proposal_env [(Some (str ''create_pr''), (str ''{}''))] []) None
      [(Some (str ''hi''), None)] example_block) = Running \<and>
   function_name (stream_end (proposal_env [(Some (str ''create_pr''), (str ''{}''))] []) None
      [(Some (str ''hi''), None)] example_block) = Some (str ''create_pr'') \<and>
   json_loads (proposal_env [(Some (str ''create_pr''), (str ''{}''))] [])
     (raw_arguments (stream_end (proposal_env [(Some (str ''create_pr''), (str ''{}''))] []) None
        [(Some (str ''hi''), None)] example_block)) = Inr (JObj []) \<and>
   (str ''plan'') \<notin> fst ` set ([] :: (ustr \<times> json) list) \<and>
   status (handle_message_stream (proposal_env [(Some (str ''create_pr''), (str ''{}''))] []) None
      [(Some (str ''hi''), None)] example_block) = Raised AssertionError \<and>
   proposed_pr (handle_message_stream (proposal_env [(Some (str ''create_pr''), (str ''{}''))] []) None
      [(Some (str ''hi''), None)] example_block) = None"
proof -
  let ?en = "proposal_env [(Some (str ''create_pr''), (str ''{}''))] []"
  have a: "status (stream_end ?en None [(Some (str ''hi''), None)] example_block) = Running"
    by (rule plain_proposal_stream_end)
  have b: "function_name (stream_end ?en None [(Some (str ''hi''), None)] example_block) =
      Some (str ''create_pr'')"
    by (simp add: plain_proposal_stream_end name_truthy_def)
  have c: "json_loads ?en
     (raw_arguments (stream_end ?en None [(Some (str ''hi''), None)] example_block)) = Inr (JObj [])"
    by (rule plain_proposal_stream_end)
  have d: "(str ''title'') \<notin> fst ` set ([] :: (ustr \<times> json) list) \<or>
           (str ''summary'') \<notin> fst ` set ([] :: (ustr \<times> json) list) \<or>
           (str ''plan'') \<notin> fst ` set ([] :: (ustr \<times> json) list)"
    by simp
  from missing_key_fails_and_keeps_proposal [OF a b c d] a b c show ?thesis by simp
qed

lemma dict_set_new: "k \<notin> fst ` set kvs \<Longrightarrow> dict_set kvs k v = kvs @ [(k, v)]"
  by (induction kvs) auto

lemma py_replace_char: "py_replace c [d] s = map (\<lambda>x. if x = c then d else x) s"
  by (induction s) (simp_all add: py_replace_def)

lemma branch_of_title_spec:
  "branch_of_title en t =
     take 50 (map (\<lambda>c. if c = 0x20 \<or> c = 0x2D then 0x5F else c) (lower en t))"
proof -
  have "(\<lambda>x. if x = 0x2D then 0x5F else x) \<circ> (\<lambda>x. if x = 0x20 then 0x5F else x)
        = (\<lambda>c :: nat. if c = 0x20 \<or> c = 0x2D then 0x5F else c)"
    by (rule ext) simp
  moreover have "str ''_'' = [0x5F]" by (simp add: str_def)
  ultimately show ?thesis by (simp add: branch_of_title_def py_replace_char)
qed

lemma block_skip: "status g = Running \<Longrightarrow> s g = g \<Longrightarrow> block (s # ss) g = block ss g"
  by (simp add: exec_def)

lemma assert_key_present:
  "arguments g = JObj kvs \<Longrightarrow> k \<in> fst ` set kvs \<Longrightarrow> assert_key k g = g"
  by (simp add: assert_key_def)

lemma create_pr_block_keys:
  assumes run: "status g = Running" and a: "arguments g = JObj kvs"
    and k: "(str ''title'') \<in> fst ` set kvs" "(str ''summary'') \<in> fst ` set kvs" "(str ''plan'') \<in> fst ` set kvs"
  shows "create_pr_block en g =
     block [show_proposal en, yield, (\<lambda>g. g\<lparr>proposed_pr := Some (arguments g)\<rparr>)]
       (exec (if_stmt (\<lambda>g. ebind (py_contains (str ''branch'') (arguments g)) (\<lambda>b. Inr (\<not> b)))
                (derive_branch en)) g)"
  unfolding create_pr_block_def
  apply (subst block_skip [of g "assert_key (str ''title'')", OF run assert_key_present [OF a k(1)]])
  apply (subst block_skip [of g "assert_key (str ''summary'')", OF run assert_key_present [OF a k(2)]])
  apply (subst block_skip [of g "assert_key (str ''plan'')", OF run assert_key_present [OF a k(3)]])
  apply (subst block.simps(2))
  apply (rule refl)
  done

lemma branch_present:
  "arguments g = JObj kvs \<Longrightarrow> (str ''branch'') \<in> fst ` set kvs \<Longrightarrow>
   if_stmt (\<lambda>g. ebind (py_contains (str ''branch'') (arguments g)) (\<lambda>b. Inr (\<not> b))) (derive_branch en) g = g"
  by (simp add: if_stmt_def ebind_def)

lemma branch_absent:
  "arguments g = JObj kvs \<Longrightarrow> (str ''branch'') \<notin> fst ` set kvs \<Longrightarrow> map_of kvs (str ''title'') = Some v \<Longrightarrow>
   if_stmt (\<lambda>g. ebind (py_contains (str ''branch'') (arguments g)) (\<lambda>b. Inr (\<not> b))) (derive_branch en) g =
     (case v of
        JStr t \<Rightarrow> g\<lparr>arguments := JObj (kvs @ [((str ''branch''), JStr (branch_of_title en t))])\<rparr>
      | _ \<Rightarrow> raise AttributeError g)"
  by (simp add: if_stmt_def ebind_def derive_branch_def dict_set_new split: json.splits)

lemma proposal_tail_stored:
  assumes "status g = Running" "chat_history g \<noteq> []"
    and "render_proposal en (arguments g) = Inr v"
  shows "status (block [show_proposal en, yield,
           (\<lambda>g. g\<lparr>proposed_pr := Some (arguments g)\<rparr>)] g) = Running"
    and "proposed_pr (block [show_proposal en, yield,
           (\<lambda>g. g\<lparr>proposed_pr := Some (arguments g)\<rparr>)] g) = Some (arguments g)"
    and "last_reply (chat_history (block [show_proposal en, yield,
           (\<lambda>g. g\<lparr>proposed_pr := Some (arguments g)\<rparr>)] g)) = Some v"
  using assms
  by (simp_all add: exec_def show_proposal_def set_reply_nonempty yield_def emit_def
      last_reply_alt)

lemma proposal_tail_failed:
  assumes "status g = Running" "render_proposal en (arguments g) = Inl e"
  shows "block [show_proposal en, yield,
           (\<lambda>g. g\<lparr>proposed_pr := Some (arguments g)\<rparr>)] g = raise e g"
  using assms by (simp add: exec_def show_proposal_def raise_def)

lemma keeps_empty_history_basic:
  "keeps (\<lambda>g. chat_history g = []) yield"
  "keeps (\<lambda>g. chat_history g = []) (raise e)"
  "keeps (\<lambda>g. chat_history g = []) (set_reply v)"
  "keeps (\<lambda>g. chat_history g = []) (add_reply t)"
  "keeps (\<lambda>g. chat_history g = []) (update_name fc)"
  "keeps (\<lambda>g. chat_history g = []) (append_arguments fc)"
  "keeps (\<lambda>g. chat_history g = []) (emit ev)"
  by (simp_all add: keeps_def yield_def emit_def raise_def set_reply_def add_reply_def
      update_name_def append_arguments_def split: list.splits option.splits)

lemma stream_end_history:
  assumes "status (at_stream en pr h txt) = Running"
  shows "chat_history (stream_end en pr h txt) \<noteq> []"
proof -
  let ?A = "at_stream en pr h txt"
  have e: "keeps (\<lambda>g. chat_history g = []) (\<lambda>g'. case x of None \<Rightarrow> g' | Some e \<Rightarrow> raise e g')"
    for x :: "error option"
    using keeps_empty_history_basic(2) by (simp add: keeps_def split: option.splits)
  have i: "keeps (\<lambda>g. chat_history g = [])
             (\<lambda>g. g\<lparr>function_name := Some [], raw_arguments := []\<rparr>)"
    by (simp add: keeps_def)
  have l: "keeps (\<lambda>g. chat_history g = []) (for_each loop_body cs)" for cs
    by (rule keeps_for_each) (rule keeps_loop_body_gen; rule keeps_empty_history_basic)
  have "keeps (\<lambda>g. chat_history g = [])
          (block [emit (StreamChat (chat_history ?A) (snippets ?A)),
                  (\<lambda>g. g\<lparr>function_name := Some [], raw_arguments := []\<rparr>),
                  for_each loop_body (fst (stream_chat en (chat_history ?A) (snippets ?A))),
                  (\<lambda>g'. case snd (stream_chat en (chat_history ?A) (snippets ?A)) of
                          None \<Rightarrow> g' | Some e \<Rightarrow> raise e g')])"
    by (rule keeps_block) (auto intro: e i l keeps_empty_history_basic)
  then have "(chat_history (consume_stream en ?A) = []) = (chat_history ?A = [])"
    unfolding consume_stream_def Let_def keeps_def by blast
  moreover have "chat_history ?A \<noteq> []"
    using at_stream_streaming [OF assms] by (simp add: streaming_def)
  ultimately show ?thesis by (simp add: stream_end_def exec_running [OF assms])
qed

lemma stream_end_running:
  "status (stream_end en pr h txt) = Running \<Longrightarrow> status (at_stream en pr h txt) = Running"
  by (cases "status (at_stream en pr h txt) = Running") (simp_all add: stream_end_def exec_def)

lemma create_pr_turn:
  assumes "status (stream_end en pr h txt) = Running"
    and "function_name (stream_end en pr h txt) = Some (str ''create_pr'')"
    and "json_loads en (raw_arguments (stream_end en pr h txt)) = Inr (JObj kvs)"
    and "(str ''title'') \<in> fst ` set kvs" "(str ''summary'') \<in> fst ` set kvs" "(str ''plan'') \<in> fst ` set kvs"
  shows "handle_message_stream en pr h txt =
     block [show_proposal en, yield, (\<lambda>g. g\<lparr>proposed_pr := Some (arguments g)\<rparr>)]
       (if_stmt (\<lambda>g. ebind (py_contains (str ''branch'') (arguments g)) (\<lambda>b. Inr (\<not> b)))
          (derive_branch en) ((stream_end en pr h txt)\<lparr>arguments := JObj kvs\<rparr>))"
proof -
  let ?g = "(stream_end en pr h txt)\<lparr>arguments := JObj kvs\<rparr>"
  have r: "status ?g = Running" using assms(1) by simp
  have a: "arguments ?g = JObj kvs" by simp
  have "handle_message_stream en pr h txt = create_pr_block en ?g"
    unfolding turn_split exec_running [OF assms(1)]
    by (rule finish_call_create_pr [OF assms(1) assms(2) assms(3)])
  then show ?thesis
    unfolding create_pr_block_keys [OF r a assms(4) assms(5) assms(6)] exec_running [OF r] .
qed

text \<open>
  C6: a stream read to its end with the name \<open>create_pr\<close> and arguments that parse to an
  object with \<open>title\<close>, \<open>summary\<close> and \<open>plan\<close>. The object that the turn goes on with is
  the parsed one when it has a \<open>branch\<close>; when it has none, and its title is a string, it is
  the parsed one with a branch added last: the title lower-cased, with every space and
  every hyphen turned into an underscore, cut to its first 50 characters. When the
  confirmation text can be rendered from that object, the turn ends normally with the
  object stored as the pending proposal and the text as the assistant's message; when
  the rendering raises, the turn ends with that exception and the pending proposal is
  what it was.
\<close>

theorem stored_branch_from_title:
  assumes "status (stream_end en pr h txt) = Running"
    and "function_name (stream_end en pr h txt) = Some (str ''create_pr'')"
    and "json_loads en (raw_arguments (stream_end en pr h txt)) = Inr (JObj kvs)"
    and "(str ''title'') \<in> fst ` set kvs" "(str ''summary'') \<in> fst ` set kvs"
        "(str ''plan'') \<in> fst ` set kvs"
    and "(str ''branch'') \<notin> fst ` set kvs \<longrightarrow> map_of kvs (str ''title'') = Some (JStr t)"
    and "stored =
           (if (str ''branch'') \<in> fst ` set kvs then kvs
            else kvs @ [((str ''branch''), JStr (take 50
                   (map (\<lambda>c. if c = 0x20 \<or> c = 0x2D then 0x5F else c) (lower en t))))])"
  shows "case render_proposal en (JObj stored) of
           Inr v \<Rightarrow>
             status (handle_message_stream en pr h txt) = Running \<and>
             proposed_pr (handle_message_stream en pr h txt) = Some (JObj stored) \<and>
             last_reply (chat_history (handle_message_stream en pr h txt)) = Some v
         | Inl e \<Rightarrow>
             status (handle_message_stream en pr h txt) = Raised e \<and>
             proposed_pr (handle_message_stream en pr h txt) = pr"
proof -
  let ?g = "(stream_end en pr h txt)\<lparr>arguments := JObj kvs\<rparr>"
  let ?c = "if_stmt (\<lambda>g. ebind (py_contains (str ''branch'') (arguments g)) (\<lambda>b. Inr (\<not> b)))
              (derive_branch en)"
  let ?b = "(stream_end en pr h txt)\<lparr>arguments := JObj stored\<rparr>"
  have a: "arguments ?g = JObj kvs" by simp
  have t: "handle_message_stream en pr h txt =
      block [show_proposal en, yield, (\<lambda>g. g\<lparr>proposed_pr := Some (arguments g)\<rparr>)] (?c ?g)"
    by (rule create_pr_turn [OF assms(1-6)])
  have ne: "chat_history (stream_end en pr h txt) \<noteq> []"
    by (rule stream_end_history [OF stream_end_running [OF assms(1)]])
  have b: "?c ?g = ?b"
  proof (cases "(str ''branch'') \<in> fst ` set kvs")
    case True
    then show ?thesis using branch_present [OF a True, of en] assms(8) by simp
  next
    case False
    with assms(7) have v: "map_of kvs (str ''title'') = Some (JStr t)" by simp
    show ?thesis using branch_absent [OF a False v, of en] False assms(8)
      by (simp add: branch_of_title_spec)
  qed
  have r: "status ?b = Running" "chat_history ?b \<noteq> []" "arguments ?b = JObj stored"
    "proposed_pr ?b = pr"
    using assms(1) ne by (simp_all add: stream_end_proposed_pr)
  show ?thesis
  proof (cases "render_proposal en (JObj stored)")
    case (Inl e)
    have "render_proposal en (arguments ?b) = Inl e" using Inl by simp
    from proposal_tail_failed [OF r(1) this]
    have "handle_message_stream en pr h txt = raise e ?b" unfolding t b .
    then show ?thesis using Inl r(4) by (simp add: raise_def)
  next
    case (Inr v)
    have "render_proposal en (arguments ?b) = Inr v" using Inr by simp
    from proposal_tail_stored [OF r(1) r(2) this]
    have "status (handle_message_stream en pr h txt) = Running"
      "proposed_pr (handle_message_stream en pr h txt) = Some (JObj stored)"
      "last_reply (chat_history (handle_message_stream en pr h txt)) = Some v"
      unfolding t b by simp_all
    then show ?thesis using Inr by simp
  qed
qed

theorem stored_branch_from_title_witness:
  "function_name (stream_end (proposal_env example_call example_arguments) None
      [(Some (str ''hi''), None)] example_block) = Some (str ''create_pr'') \<and>
   (str ''branch'') \<notin> fst ` set example_arguments \<and>
   map_of example_arguments (str ''title'') = Some (JStr (str ''X'')) \<and>
   status (handle_message_stream (proposal_env example_call example_arguments) None
      [(Some (str ''hi''), None)] example_block) = Running \<and>
   proposed_pr (handle_message_stream (proposal_env example_call example_arguments) None
      [(Some (str ''hi''), None)] example_block) =
     Some (JObj (example_arguments @ [((str ''branch''), JStr (str ''x''))])) \<and>
   function_name (stream_end (proposal_env long_title_call long_title_arguments) None
      [(Some (str ''hi''), None)] example_block) = Some (str ''create_pr'') \<and>
   (str ''branch'') \<notin> fst ` set long_title_arguments \<and>
   map_of long_title_arguments (str ''title'') =
     Some (JStr (str ''Fix Log-In: keep the Session Token when the Page is Re-Loaded'')) \<and>
   status (handle_message_stream (proposal_env long_title_call long_title_arguments) None
      [(Some (str ''hi''), None)] example_block) = Running \<and>
   proposed_pr (handle_message_stream (proposal_env long_title_call long_title_arguments) None
      [(Some (str ''hi''), None)] example_block) =
     Some (JObj (long_title_arguments @
       [((str ''branch''), JStr (str ''fix_log_in:_keep_the_session_token_when_the_page_i''))]))"
proof -
  let ?f = "\<lambda>c :: nat. if c = 0x20 \<or> c = 0x2D then 0x5F else c"
  have l: "lower (proposal_env nas kvs) = ascii_lower" for nas kvs
    by (simp add: proposal_env_def stream_env_def example_env_def)
  have short: "function_name (stream_end (proposal_env example_call example_arguments) None
      [(Some (str ''hi''), None)] example_block) = Some (str ''create_pr'') \<and>
    (str ''branch'') \<notin> fst ` set example_arguments \<and>
    map_of example_arguments (str ''title'') = Some (JStr (str ''X'')) \<and>
    status (handle_message_stream (proposal_env example_call example_arguments) None
      [(Some (str ''hi''), None)] example_block) = Running \<and>
    proposed_pr (handle_message_stream (proposal_env example_call example_arguments) None
      [(Some (str ''hi''), None)] example_block) =
     Some (JObj (example_arguments @ [((str ''branch''), JStr (str ''x''))]))"
  proof -
    let ?en = "proposal_env example_call example_arguments"
    let ?SE = "stream_end ?en None [(Some (str ''hi''), None)] example_block"
    let ?R = "handle_message_stream ?en None [(Some (str ''hi''), None)] example_block"
    let ?stored = "example_arguments @ [((str ''branch''), JStr (str ''x''))]"
    have a: "status ?SE = Running" by (rule plain_proposal_stream_end)
    have b: "function_name ?SE = Some (str ''create_pr'')"
      by (simp add: plain_proposal_stream_end name_truthy_def example_call_def)
    have c: "json_loads ?en (raw_arguments ?SE) = Inr (JObj example_arguments)"
      by (rule plain_proposal_stream_end)
    have k: "(str ''title'') \<in> fst ` set example_arguments"
      "(str ''summary'') \<in> fst ` set example_arguments"
      "(str ''plan'') \<in> fst ` set example_arguments"
      "(str ''branch'') \<notin> fst ` set example_arguments"
      by (simp_all add: example_arguments_def)
    have v: "map_of example_arguments (str ''title'') = Some (JStr (str ''X''))"
      by (simp add: example_arguments_def)
    have i: "(str ''branch'') \<notin> fst ` set example_arguments \<longrightarrow>
        map_of example_arguments (str ''title'') = Some (JStr (str ''X''))"
      using v by simp
    have br: "take 50 (map ?f (lower ?en (str ''X''))) = (str ''x'')"
      unfolding l by (simp add: ascii_lower_def str_def)
    have s: "?stored =
        (if (str ''branch'') \<in> fst ` set example_arguments then example_arguments
         else example_arguments @
           [((str ''branch''), JStr (take 50 (map ?f (lower ?en (str ''X'')))))])"
      unfolding br using k(4) by simp
    have "\<exists>w. render_proposal ?en (JObj ?stored) = Inr w"
      by (simp add: render_proposal_def ebind_def to_str_def example_arguments_def)
    then obtain w where rp: "render_proposal ?en (JObj ?stored) = Inr w" by blast
    from stored_branch_from_title [OF a b c k(1) k(2) k(3) i s]
    have "status ?R = Running \<and> proposed_pr ?R = Some (JObj ?stored)"
      unfolding rp by simp
    with b k(4) v show ?thesis by blast
  qed
  have long: "function_name (stream_end (proposal_env long_title_call long_title_arguments) None
      [(Some (str ''hi''), None)] example_block) = Some (str ''create_pr'') \<and>
    (str ''branch'') \<notin> fst ` set long_title_arguments \<and>
    map_of long_title_arguments (str ''title'') =
      Some (JStr (str ''Fix Log-In: keep the Session Token when the Page is Re-Loaded'')) \<and>
    status (handle_message_stream (proposal_env long_title_call long_title_arguments) None
      [(Some (str ''hi''), None)] example_block) = Running \<and>
    proposed_pr (handle_message_stream (proposal_env long_title_call long_title_arguments) None
      [(Some (str ''hi''), None)] example_block) =
     Some (JObj (long_title_arguments @
       [((str ''branch''), JStr (str ''fix_log_in:_keep_the_session_token_when_the_page_i''))]))"
  proof -
    let ?en = "proposal_env long_title_call long_title_arguments"
    let ?SE = "stream_end ?en None [(Some (str ''hi''), None)] example_block"
    let ?R = "handle_message_stream ?en None [(Some (str ''hi''), None)] example_block"
    let ?stored = "long_title_arguments @
       [((str ''branch''), JStr (str ''fix_log_in:_keep_the_session_token_when_the_page_i''))]"
    have a: "status ?SE = Running" by (rule plain_proposal_stream_end)
    have b: "function_name ?SE = Some (str ''create_pr'')"
      by (simp add: plain_proposal_stream_end name_truthy_def long_title_call_def)
    have c: "json_loads ?en (raw_arguments ?SE) = Inr (JObj long_title_arguments)"
      by (rule plain_proposal_stream_end)
    have k: "(str ''title'') \<in> fst ` set long_title_arguments"
      "(str ''summary'') \<in> fst ` set long_title_arguments"
      "(str ''plan'') \<in> fst ` set long_title_arguments"
      "(str ''branch'') \<notin> fst ` set long_title_arguments"
      by (simp_all add: long_title_arguments_def)
    have v: "map_of long_title_arguments (str ''title'') = Some (JStr long_title)"
      by (simp add: long_title_arguments_def)
    have i: "(str ''branch'') \<notin> fst ` set long_title_arguments \<longrightarrow>
        map_of long_title_arguments (str ''title'') = Some (JStr long_title)"
      using v by simp
    have br: "take 50 (map ?f (lower ?en long_title)) =
        (str ''fix_log_in:_keep_the_session_token_when_the_page_i'')"
      unfolding l by (simp add: ascii_lower_def long_title_def str_def)
    have s: "?stored =
        (if (str ''branch'') \<in> fst ` set long_title_arguments then long_title_arguments
         else long_title_arguments @
           [((str ''branch''), JStr (take 50 (map ?f (lower ?en long_title))))])"
      unfolding br using k(4) by simp
    have "\<exists>w. render_proposal ?en (JObj ?stored) = Inr w"
      by (simp add: render_proposal_def ebind_def plan_line_def to_str_def
          long_title_arguments_def)
    then obtain w where rp: "render_proposal ?en (JObj ?stored) = Inr w" by blast
    from stored_branch_from_title [OF a b c k(1) k(2) k(3) i s]
    have "status ?R = Running \<and> proposed_pr ?R = Some (JObj ?stored)"
      unfolding rp by simp
    with b k(4) v show ?thesis by (simp add: long_title_def)
  qed
  from short long show ?thesis by blast
qed

section \<open>Properties of the repository-change handler\<close>

lemma example_selection:
  "selected_files (fst (file_names_change example_env [(str ''a.py'')] example_app)) = [(str ''a.py'')] \<and>
   map fst (file_to_str (fst (file_names_change example_env [(str ''a.py'')] example_app))) = [(str ''a.py'')]"
  by (simp add: file_names_change_def build_string_def add_file_to_dict_def example_app_def
      Let_def)

text \<open>
  C8, as the code has it: \<open>repo_name_change\<close> writes the configuration only. Whatever
  the installation lookup answers, the selected files and the cache of rendered files are
  after the change what they were before it.
\<close>

theorem repo_name_change_keeps_files:
  "selected_files (fst (repo_name_change get_id repo_full_name a)) = selected_files a \<and>
   file_to_str (fst (repo_name_change get_id repo_full_name a)) = file_to_str a"
  by (simp add: repo_name_change_def repo_name_failed_def Let_def split: sum.splits)

text \<open>
  C8 as stated fails: with \<open>a.py\<close> selected and cached, a successful change to the
  repository \<open>o/new\<close> leaves both the selection and the cache non-empty.
\<close>

theorem repo_name_change_resets_counterexample:
  "selected_files (fst (repo_name_change (\<lambda>r. Inr 7) (str ''o/new'')
      (fst (file_names_change example_env [(str ''a.py'')] example_app)))) \<noteq> [] \<and>
   file_to_str (fst (repo_name_change (\<lambda>r. Inr 7) (str ''o/new'')
      (fst (file_names_change example_env [(str ''a.py'')] example_app)))) \<noteq> [] \<and>
   snd (repo_name_change (\<lambda>r. Inr 7) (str ''o/new'')
      (fst (file_names_change example_env [(str ''a.py'')] example_app))) = Inr []"
  using example_selection
  by (auto simp add: repo_name_change_def repo_name_failed_def Let_def)

end
